theory Spec2Isabelle
  imports Complex_Main "HOL-Library.Log_Nat"
begin

section \<open>The stock dashboard script (app.py)\<close>

text \<open>
  The repository is one Streamlit script. It reads a comma-separated list of ticker
  symbols, a date range and a flag from the sidebar, downloads price data through
  \<^verbatim>\<open>yf.download\<close>, and shows tables and charts and a CSV download button.
  The script is embedded as a function from its inputs and the outcome of the download
  to the list of things it puts on the page, in order. Python exceptions are values of
  a sum type; pandas data frames are a record of column labels and rows.
\<close>

subsection \<open>Text\<close>

text \<open>
  A Python \<^verbatim>\<open>str\<close> is a sequence of Unicode code points, each a number. \<open>ascii\<close>
  gives the code points of a text of ASCII characters; the emoji of the script's
  captions are written as their code points.
\<close>

type_synonym codepoint = nat

type_synonym str = "codepoint list"

definition ascii :: "string \<Rightarrow> str" where
  "ascii s = map of_char s"

subsection \<open>Symbol list: line 15\<close>

text \<open>
  \<^verbatim>\<open>symbols = [sym.strip().upper() for sym in symbol_input.split(",") if sym.strip()]\<close>
\<close>

text \<open>
  The code points for which \<^verbatim>\<open>str.isspace\<close> holds (Python 3.11), which are the ones
  \<^verbatim>\<open>str.strip()\<close> removes from both ends.
\<close>

definition isspace :: "codepoint \<Rightarrow> bool" where
  "isspace c \<longleftrightarrow>
     (9 \<le> c \<and> c \<le> 13) \<or> (28 \<le> c \<and> c \<le> 32) \<or> c = 133 \<or> c = 160 \<or> c = 5760
     \<or> (8192 \<le> c \<and> c \<le> 8202) \<or> c = 8232 \<or> c = 8233 \<or> c = 8239 \<or> c = 8287 \<or> c = 12288"

definition strip :: "str \<Rightarrow> str" where
  "strip s = rev (dropWhile isspace (rev (dropWhile isspace s)))"

text \<open>
  \<^verbatim>\<open>str.upper()\<close> replaces every code point by its full uppercase mapping, which may
  be several code points. On ASCII the mapping is: a small letter to its capital,
  anything else to itself. Beyond ASCII it is the table of the Unicode database, which
  is the parameter \<open>full\<close>.
\<close>

definition upper_char :: "(codepoint \<Rightarrow> str) \<Rightarrow> codepoint \<Rightarrow> str" where
  "upper_char full c = (if 97 \<le> c \<and> c \<le> 122 then [c - 32] else if c < 128 then [c] else full c)"

definition upper :: "(codepoint \<Rightarrow> str) \<Rightarrow> str \<Rightarrow> str" where
  "upper full s = concat (map (upper_char full) s)"

text \<open>
  \<^verbatim>\<open>s.split(sep)\<close> for a one-character separator: the pieces between the
  separators, the empty ones too; a string without separator is its only piece.
  \<open>cur\<close> holds the piece being read, reversed.
\<close>

fun split_from :: "codepoint \<Rightarrow> str \<Rightarrow> str \<Rightarrow> str list" where
  "split_from sep cur [] = [rev cur]"
| "split_from sep cur (c # cs) =
     (if c = sep then rev cur # split_from sep [] cs else split_from sep (c # cur) cs)"

definition split :: "str \<Rightarrow> codepoint \<Rightarrow> str list" where
  "split s sep = split_from sep [] s"

text \<open>The comprehension: entries in order, kept when the stripped entry is non-empty.\<close>

fun comprehension :: "(codepoint \<Rightarrow> str) \<Rightarrow> str list \<Rightarrow> str list" where
  "comprehension full [] = []"
| "comprehension full (entry # rest) =
     (if strip entry \<noteq> [] then upper full (strip entry) # comprehension full rest
      else comprehension full rest)"

text \<open>The comma is code point 44.\<close>

definition resolve_symbols :: "(codepoint \<Rightarrow> str) \<Rightarrow> str \<Rightarrow> str list" where
  "resolve_symbols full symbol_input = comprehension full (split symbol_input 44)"

text \<open>
  The symbol list as the specification words it: split on commas, trim each entry,
  drop the entries that are empty after trimming, upper-case the others.
\<close>

definition spec_symbols :: "(codepoint \<Rightarrow> str) \<Rightarrow> str \<Rightarrow> str list" where
  "spec_symbols full symbol_input =
     map (upper full) (filter (\<lambda>e. e \<noteq> []) (map strip (split symbol_input 44)))"

text \<open>\<^verbatim>\<open>sep.join(pieces)\<close>, the inverse of splitting.\<close>

fun join :: "codepoint \<Rightarrow> str list \<Rightarrow> str" where
  "join sep [] = []"
| "join sep [p] = p"
| "join sep (p # q # ps) = p @ sep # join sep (q # ps)"

subsection \<open>Floating-point numbers\<close>

text \<open>
  pandas holds prices as IEEE 754 binary64 numbers (\<^verbatim>\<open>float64\<close>). A finite
  \<^verbatim>\<open>float64\<close> is modelled as the real number it stands for, and NaN as \<open>None\<close>. Every
  arithmetic operation gives the exact result rounded to the nearest \<^verbatim>\<open>float64\<close>,
  ties to the even mantissa: \<open>fl\<close> is this rounding, to 53 significant bits, with the
  fixed spacing \<open>2 ^ -1074\<close> below \<open>2 ^ -1022\<close>. Infinities and the sign of zero are
  not modelled: a result beyond the largest \<^verbatim>\<open>float64\<close> is outside the model.
\<close>

definition pow2 :: "int \<Rightarrow> real" where
  "pow2 k = (if 0 \<le> k then 2 ^ nat k else 1 / 2 ^ nat (- k))"

text \<open>The integer nearest to \<open>x\<close>, the even one of two that are equally near.\<close>

definition round_even :: "real \<Rightarrow> int" where
  "round_even x =
     (let f = \<lfloor>x\<rfloor>; d = x - of_int f
      in if d < 1 / 2 then f else if 1 / 2 < d then f + 1 else if even f then f else f + 1)"

text \<open>The binary exponent of \<open>x \<noteq> 0\<close>: the \<open>e\<close> with \<open>2 ^ e \<le> \<bar>x\<bar> < 2 ^ (e + 1)\<close>.\<close>

definition exponent :: "real \<Rightarrow> int" where
  "exponent x =
     (let a = \<bar>x\<bar> in if 1 \<le> a then bitlen \<lfloor>a\<rfloor> - 1 else - bitlen (\<lceil>1 / a\<rceil> - 1))"

definition fl :: "real \<Rightarrow> real" where
  "fl x =
     (if x = 0 then 0
      else let q = pow2 (max (exponent x) (- 1022) - 52) in of_int (round_even (x / q)) * q)"

subsection \<open>Rolling mean: line 67\<close>

text \<open>
  \<^verbatim>\<open>df['Close'].rolling(window=7).mean()\<close>, as pandas computes it
  (\<^verbatim>\<open>roll_mean\<close> in \<^verbatim>\<open>pandas/_libs/window/aggregations.pyx\<close>, pandas 2): one pass over the
  column that keeps the sum of the values in the window. A value that enters the window
  is added and the value that leaves it is subtracted, both with Kahan's compensated
  summation; NaN values are skipped. The mean at a position is the sum divided by the
  number of values in the window, and NaN while the window has fewer than \<open>minp\<close>
  values (\<^verbatim>\<open>min_periods\<close>, by default the window size). Two repairs of rounding
  artefacts follow the division: a window of equal values has that value as its mean,
  and the mean of values that are all non-negative (all negative) is not negative (not
  positive).
\<close>

record mean_state =
  nobs :: nat
  sum_x :: real
  neg_ct :: nat
  compensation_add :: real
  compensation_remove :: real
  num_consecutive_same_value :: nat
  prev_value :: "real option"

definition add_mean :: "real option \<Rightarrow> mean_state \<Rightarrow> mean_state" where
  "add_mean val st =
     (case val of
        None \<Rightarrow> st
      | Some v \<Rightarrow>
          (let y = fl (v - compensation_add st); t = fl (sum_x st + y)
           in st\<lparr>nobs := nobs st + 1,
                 sum_x := t,
                 compensation_add := fl (fl (t - sum_x st) - y),
                 neg_ct := (if v < 0 then neg_ct st + 1 else neg_ct st),
                 num_consecutive_same_value :=
                   (if prev_value st = Some v then num_consecutive_same_value st + 1 else 1),
                 prev_value := Some v\<rparr>))"

definition remove_mean :: "real option \<Rightarrow> mean_state \<Rightarrow> mean_state" where
  "remove_mean val st =
     (case val of
        None \<Rightarrow> st
      | Some v \<Rightarrow>
          (let y = fl (- v - compensation_remove st); t = fl (sum_x st + y)
           in st\<lparr>nobs := nobs st - 1,
                 sum_x := t,
                 compensation_remove := fl (fl (t - sum_x st) - y),
                 neg_ct := (if v < 0 then neg_ct st - 1 else neg_ct st)\<rparr>))"

definition calc_mean :: "nat \<Rightarrow> mean_state \<Rightarrow> real option" where
  "calc_mean minp st =
     (if minp \<le> nobs st \<and> 0 < nobs st then
        (let result = fl (sum_x st / real (nobs st))
         in if nobs st \<le> num_consecutive_same_value st then prev_value st
            else if neg_ct st = 0 \<and> result < 0 then Some 0
            else if neg_ct st = nobs st \<and> 0 < result then Some 0
            else Some result)
      else None)"

text \<open>
  Position \<open>i\<close> of the pass, for a window of \<open>w\<close> values that ends at \<open>i\<close>: the
  value at \<open>i - w\<close> leaves the window, the value at \<open>i\<close> enters it, and the mean is
  written out.
\<close>

definition roll_step ::
  "nat \<Rightarrow> real option list \<Rightarrow> mean_state \<times> real option list \<Rightarrow> nat \<Rightarrow> mean_state \<times> real option list" where
  "roll_step w vals acc i =
     (let removed = (if w \<le> i then remove_mean (vals ! (i - w)) (fst acc) else fst acc);
          added = add_mean (vals ! i) removed
      in (added, snd acc @ [calc_mean w added]))"

definition start_state :: "real option list \<Rightarrow> mean_state" where
  "start_state vals =
     \<lparr>nobs = 0, sum_x = 0, neg_ct = 0, compensation_add = 0, compensation_remove = 0,
      num_consecutive_same_value = 0, prev_value = (case vals of [] \<Rightarrow> None | v # _ \<Rightarrow> v)\<rparr>"

definition rolling_mean :: "nat \<Rightarrow> real option list \<Rightarrow> real option list" where
  "rolling_mean w vals = snd (foldl (roll_step w vals) (start_state vals, []) [0..<length vals])"

subsection \<open>Data frames\<close>

text \<open>
  A pandas \<^verbatim>\<open>DataFrame\<close>: the name of its index, its column labels in order, and
  its rows, each the index label of the row with one cell per column. Column labels are
  taken to be distinct and rows to have one cell per column, as pandas builds them; a
  cell missing from a short row reads as NaN. \<open>Float64 None\<close> is NaN. pandas gives
  every column one dtype; the model reads the dtype of a column off its cells: a column
  of numbers with a \<^verbatim>\<open>float64\<close> among them is a \<^verbatim>\<open>float64\<close> column. Columns of
  dtype \<^verbatim>\<open>object\<close> that hold only numbers are not modelled.
\<close>

type_synonym date = int

datatype cell = Float64 "real option" | Int64 int | Text str | Timestamp date

record frame =
  index_name :: "str option"
  columns :: "str list"
  rows :: "(cell \<times> cell list) list"

datatype py_error = KeyError str | ValueError str | DataError

text \<open>\<^verbatim>\<open>pd.DataFrame()\<close>\<close>

definition empty_frame :: frame where
  "empty_frame = \<lparr>index_name = None, columns = [], rows = []\<rparr>"

fun index_of :: "str list \<Rightarrow> str \<Rightarrow> nat" where
  "index_of [] name = 0"
| "index_of (c # cs) name = (if c = name then 0 else Suc (index_of cs name))"

definition cell_at :: "cell list \<Rightarrow> nat \<Rightarrow> cell" where
  "cell_at cs k = (if k < length cs then cs ! k else Float64 None)"

text \<open>A fresh \<^verbatim>\<open>RangeIndex\<close>: the rows are labelled 0, 1, 2, ...\<close>

definition range_index :: "cell list list \<Rightarrow> (cell \<times> cell list) list" where
  "range_index data = zip (map (\<lambda>i. Int64 (int i)) [0..<length data]) data"

text \<open>
  \<^verbatim>\<open>df.reset_index(inplace=True)\<close>: the index becomes the first column, under the
  name of the index (\<^verbatim>\<open>index\<close>, or \<^verbatim>\<open>level_0\<close>, for an index without name);
  pandas raises ValueError when a column of that name exists.
\<close>

definition index_label :: "frame \<Rightarrow> str" where
  "index_label df =
     (case index_name df of
        None \<Rightarrow> if ascii ''index'' \<in> set (columns df) then ascii ''level_0'' else ascii ''index''
      | Some n \<Rightarrow> n)"

definition reset_index :: "frame \<Rightarrow> py_error + frame" where
  "reset_index df =
     (let name = index_label df
      in if name \<in> set (columns df) then Inl (ValueError name)
         else Inr \<lparr>index_name = None, columns = name # columns df,
                   rows = range_index (map (\<lambda>(i, cs). i # cs) (rows df))\<rparr>)"

text \<open>\<^verbatim>\<open>df[name]\<close>: the column, or KeyError.\<close>

definition getitem :: "frame \<Rightarrow> str \<Rightarrow> py_error + cell list" where
  "getitem df name =
     (if name \<in> set (columns df)
      then Inr (map (\<lambda>(i, cs). cell_at cs (index_of (columns df) name)) (rows df))
      else Inl (KeyError name))"

text \<open>
  \<^verbatim>\<open>df[[name, ...]]\<close>: the frame of these columns, in this order, or KeyError
  (pandas names every missing label in the exception; the model keeps the first).
\<close>

definition getitem_list :: "frame \<Rightarrow> str list \<Rightarrow> py_error + frame" where
  "getitem_list df names =
     (case filter (\<lambda>n. n \<notin> set (columns df)) names of
        [] \<Rightarrow> Inr \<lparr>index_name = index_name df, columns = names,
                   rows = map (\<lambda>(i, cs). (i, map (\<lambda>n. cell_at cs (index_of (columns df) n)) names))
                            (rows df)\<rparr>
      | n # _ \<Rightarrow> Inl (KeyError n))"

text \<open>
  \<^verbatim>\<open>df[name] = values\<close>, one value per row: an existing column is overwritten in
  place, a new one is appended as the last column.
\<close>

definition put :: "str list \<Rightarrow> str \<Rightarrow> cell \<Rightarrow> cell list \<Rightarrow> cell list" where
  "put cols name v cs = (if name \<in> set cols then cs[index_of cols name := v] else cs @ [v])"

definition setitem :: "frame \<Rightarrow> str \<Rightarrow> cell list \<Rightarrow> frame" where
  "setitem df name vals =
     df\<lparr>columns := (if name \<in> set (columns df) then columns df else columns df @ [name]),
        rows := map2 (\<lambda>(i, cs) v. (i, put (columns df) name v cs)) (rows df) vals\<rparr>"

text \<open>\<^verbatim>\<open>df.head()\<close>: the first five rows.\<close>

definition head :: "frame \<Rightarrow> frame" where
  "head df = df\<lparr>rows := take 5 (rows df)\<rparr>"

subsection \<open>Concatenation: line 91\<close>

text \<open>The kinds of cells: a number, a \<^verbatim>\<open>float64\<close>, an \<^verbatim>\<open>int64\<close>.\<close>

fun is_numeric :: "cell \<Rightarrow> bool" where
  "is_numeric (Float64 v) = True"
| "is_numeric (Int64 n) = True"
| "is_numeric (Text s) = False"
| "is_numeric (Timestamp d) = False"

fun is_float64 :: "cell \<Rightarrow> bool" where
  "is_float64 (Float64 v) = True"
| "is_float64 (Int64 n) = False"
| "is_float64 (Text s) = False"
| "is_float64 (Timestamp d) = False"

fun is_int64 :: "cell \<Rightarrow> bool" where
  "is_int64 (Float64 v) = False"
| "is_int64 (Int64 n) = True"
| "is_int64 (Text s) = False"
| "is_int64 (Timestamp d) = False"

text \<open>
  \<^verbatim>\<open>astype('float64')\<close> on a cell: an integer becomes the \<^verbatim>\<open>float64\<close> nearest to
  it.
\<close>

fun upcast :: "cell \<Rightarrow> cell" where
  "upcast (Float64 v) = Float64 v"
| "upcast (Int64 n) = Float64 (Some (fl (of_int n)))"
| "upcast (Text s) = Text s"
| "upcast (Timestamp d) = Timestamp d"

text \<open>
  Column \<open>j\<close> of a table of rows, and the test for a \<^verbatim>\<open>float64\<close> column: numbers
  only, a \<^verbatim>\<open>float64\<close> among them.
\<close>

definition column_of :: "nat \<Rightarrow> cell list list \<Rightarrow> cell list" where
  "column_of j data = map (\<lambda>cs. cell_at cs j) data"

definition float_column :: "cell list \<Rightarrow> bool" where
  "float_column cs \<longleftrightarrow> list_all is_numeric cs \<and> list_ex is_float64 cs"

text \<open>
  The result of a concatenation has one dtype per column, the common type of the parts:
  where \<^verbatim>\<open>int64\<close> meets \<^verbatim>\<open>float64\<close> (or the NaN that fills a missing column) the
  column is \<^verbatim>\<open>float64\<close> and its integers are converted; a column with a cell that
  is no number has dtype \<^verbatim>\<open>object\<close> and keeps its cells as they are.
\<close>

definition unify :: "cell list list \<Rightarrow> cell list list" where
  "unify data =
     map (\<lambda>cs. map (\<lambda>(j, c). if float_column (column_of j data) then upcast c else c)
                 (enumerate 0 cs)) data"

text \<open>
  \<^verbatim>\<open>pd.concat([a, b], ignore_index=True)\<close>: the columns of \<open>a\<close>, then those of
  \<open>b\<close> that \<open>a\<close> does not have; the rows of \<open>a\<close>, then those of \<open>b\<close>, each laid
  out on the joint columns with NaN where it has no cell; one dtype per column; a fresh
  index.
\<close>

definition reindex :: "str list \<Rightarrow> str list \<Rightarrow> cell list \<Rightarrow> cell list" where
  "reindex old new cs =
     map (\<lambda>c. if c \<in> set old then cell_at cs (index_of old c) else Float64 None) new"

definition concat_frames :: "frame \<Rightarrow> frame \<Rightarrow> frame" where
  "concat_frames a b =
     (let cols = columns a @ filter (\<lambda>c. c \<notin> set (columns a)) (columns b)
      in \<lparr>index_name = None, columns = cols,
          rows = range_index (unify (map (\<lambda>r. reindex (columns a) cols (snd r)) (rows a)
                                   @ map (\<lambda>r. reindex (columns b) cols (snd r)) (rows b)))\<rparr>)"

subsection \<open>CSV text: lines 81 and 126\<close>

text \<open>
  \<^verbatim>\<open>df.to_csv(index=False)\<close>: a line of column labels, then one line per row,
  without the index. A string cell is written as it is and NaN as the empty text; how
  pandas prints a number or a date is the parameter \<open>fmt\<close>. A field that contains a
  comma (code point 44), a double quote (34), a line feed (10) or a carriage return (13)
  is put in double quotes with its double quotes doubled, and a line that is one empty
  field is written as two double quotes, as Python's \<^verbatim>\<open>csv\<close> writer does under its
  default \<^verbatim>\<open>QUOTE_MINIMAL\<close>. Lines end in a line feed.
\<close>

definition render :: "(cell \<Rightarrow> str) \<Rightarrow> cell \<Rightarrow> str" where
  "render fmt c = (case c of Text s \<Rightarrow> s | Float64 None \<Rightarrow> [] | _ \<Rightarrow> fmt c)"

definition special :: "codepoint \<Rightarrow> bool" where
  "special c = (c = 44 \<or> c = 34 \<or> c = 10 \<or> c = 13)"

definition quote :: "str \<Rightarrow> str" where
  "quote field =
     (if list_ex special field
      then 34 # concat (map (\<lambda>c. if c = 34 then [c, c] else [c]) field) @ [34]
      else field)"

definition csv_line :: "str list \<Rightarrow> str" where
  "csv_line texts =
     (if texts = [[]] then [34, 34] else join 44 (map quote texts)) @ [10]"

definition to_csv :: "(cell \<Rightarrow> str) \<Rightarrow> frame \<Rightarrow> str" where
  "to_csv fmt df =
     concat (map csv_line (columns df # map (\<lambda>r. map (render fmt) (snd r)) (rows df)))"

subsection \<open>Rolling mean of a column\<close>

text \<open>
  The rolling mean is taken of a numeric column, as \<^verbatim>\<open>float64\<close>: an integer is
  converted to the \<^verbatim>\<open>float64\<close> nearest to it. pandas raises DataError on a column
  that holds anything else.
\<close>

fun to_float :: "cell \<Rightarrow> real option" where
  "to_float (Float64 v) = v"
| "to_float (Int64 n) = Some (fl (of_int n))"
| "to_float (Text s) = None"
| "to_float (Timestamp d) = None"

definition rolling_mean_column :: "nat \<Rightarrow> cell list \<Rightarrow> py_error + cell list" where
  "rolling_mean_column w col =
     (if list_all is_numeric col then Inr (map Float64 (rolling_mean w (map to_float col)))
      else Inl DataError)"

subsection \<open>What the script puts on the page\<close>

datatype trace =
    Candlestick "cell list" "cell list" "cell list" "cell list" "cell list" str
  | Scatter "cell list" "cell list" str bool "str option"
  | Bar "cell list" "cell list" str

text \<open>
  \<open>Candlestick x open high low close name\<close>; \<open>Scatter x y name dashed stackgroup\<close>,
  always in mode \<^verbatim>\<open>lines\<close>; \<open>Bar x y name\<close>. A figure is its traces with the
  title and the two axis titles of its layout.
\<close>

datatype figure = Figure "trace list" str str str

datatype event =
    PageConfig
  | Title str
  | Markdown str
  | Spinner str
  | LoadStockData "str list" date date
  | Error str
  | Warning str
  | Subheader str
  | Dataframe frame
  | PlotlyChart figure
  | DownloadButton str str
  | Uncaught py_error

text \<open>
  \<open>LoadStockData\<close> records the call of \<^verbatim>\<open>load_stock_data\<close>;
  \<open>DownloadButton data file_name\<close> is the export, \<open>data\<close> being the text that the
  script then encodes as UTF-8; \<open>Uncaught e\<close> ends a run in
  which the exception \<open>e\<close> is raised outside the \<^verbatim>\<open>try\<close>: what was put on the
  page before stays there, and nothing follows.
\<close>

definition raising :: "py_error + 'a \<Rightarrow> ('a \<Rightarrow> event list) \<Rightarrow> event list" where
  "raising r k = (case r of Inl e \<Rightarrow> [Uncaught e] | Inr v \<Rightarrow> k v)"

subsection \<open>One symbol: lines 37 to 82\<close>

text \<open>Lines 37 and 38: the copy of the fetched frame, with its index as a column.\<close>

definition shape_single :: "frame \<Rightarrow> py_error + frame" where
  "shape_single raw_data = reset_index raw_data"

text \<open>
  The captions start with an emoji: a calendar (128197), a candle (128367, 65039), a
  chart (128200), a bar chart (128202).
\<close>

definition single_view :: "(cell \<Rightarrow> str) \<Rightarrow> str \<Rightarrow> bool \<Rightarrow> frame \<Rightarrow> event list" where
  "single_view fmt symbol show_ma raw_data =
     raising (shape_single raw_data) (\<lambda>df.
     Subheader (128197 # ascii '' Raw Data Preview'') #
     Dataframe (head df) #
     Subheader ([128367, 65039, 32] @ symbol @ ascii '' Candlestick Chart'') #
     raising (getitem df (ascii ''Date'')) (\<lambda>x.
     raising (getitem df (ascii ''Open'')) (\<lambda>op.
     raising (getitem df (ascii ''High'')) (\<lambda>hi.
     raising (getitem df (ascii ''Low'')) (\<lambda>lo.
     raising (getitem df (ascii ''Close'')) (\<lambda>cl.
     PlotlyChart (Figure [Candlestick x op hi lo cl symbol]
                    (symbol @ ascii '' Candlestick Chart'') (ascii ''Date'') (ascii ''Price (USD)'')) #
     Subheader ([128200, 32] @ symbol @ ascii '' Closing Price'') #
     raising (if show_ma
              then (case rolling_mean_column 7 cl of
                      Inl e \<Rightarrow> Inl e
                    | Inr ma \<Rightarrow> Inr [Scatter x ma (ascii ''7-Day MA'') True None])
              else Inr []) (\<lambda>overlay.
     PlotlyChart (Figure (Scatter x cl (ascii ''Close'') False None # overlay)
                    (ascii ''Closing Price Trend'') (ascii ''Date'') (ascii ''Price (USD)'')) #
     Subheader (128202 # ascii '' Volume Traded'') #
     raising (getitem df (ascii ''Volume'')) (\<lambda>vol.
     PlotlyChart (Figure [Bar x vol (ascii ''Volume'')]
                    (ascii ''Trading Volume'') (ascii ''Date'') (ascii ''Volume'')) #
     [DownloadButton (to_csv fmt df) (symbol @ ascii ''_stock_data.csv'')]))))))))"

subsection \<open>Several symbols: lines 86 to 127\<close>

text \<open>
  The fetched data is grouped by ticker: \<^verbatim>\<open>raw_data[symbol]\<close> is the frame of
  one ticker, and raises KeyError for a ticker the data does not have. The loop of
  lines 87 to 91 starts from the empty frame \<open>df\<close>.
\<close>

text \<open>
  Lines 89 and 90: the symbol in a column \<^verbatim>\<open>Symbol\<close>, then the index in a column
  \<^verbatim>\<open>Date\<close>.
\<close>

definition tag_stock :: "str \<Rightarrow> frame \<Rightarrow> frame" where
  "tag_stock symbol stock_df =
     (let tagged = setitem stock_df (ascii ''Symbol'') (replicate (length (rows stock_df)) (Text symbol))
      in setitem tagged (ascii ''Date'') (map fst (rows tagged)))"

fun shape_loop :: "(str \<rightharpoonup> frame) \<Rightarrow> frame \<Rightarrow> str list \<Rightarrow> py_error + frame" where
  "shape_loop raw_data df [] = Inr df"
| "shape_loop raw_data df (symbol # rest) =
     (case raw_data symbol of
        None \<Rightarrow> Inl (KeyError symbol)
      | Some stock_df \<Rightarrow> shape_loop raw_data (concat_frames df (tag_stock symbol stock_df)) rest)"

definition shape_multi :: "(str \<rightharpoonup> frame) \<Rightarrow> str list \<Rightarrow> py_error + frame" where
  "shape_multi raw_data symbols = shape_loop raw_data empty_frame symbols"

text \<open>
  Lines 99 to 106 and lines 113 to 121: one line per symbol, of the column
  \<open>col\<close> against the index.
\<close>

fun column_traces ::
  "(str \<rightharpoonup> frame) \<Rightarrow> str \<Rightarrow> str option \<Rightarrow> str list \<Rightarrow> py_error + trace list" where
  "column_traces raw_data col stackgroup [] = Inr []"
| "column_traces raw_data col stackgroup (symbol # rest) =
     (case raw_data symbol of
        None \<Rightarrow> Inl (KeyError symbol)
      | Some symbol_data \<Rightarrow>
          (case getitem symbol_data col of
             Inl e \<Rightarrow> Inl e
           | Inr y \<Rightarrow>
               (case column_traces raw_data col stackgroup rest of
                  Inl e \<Rightarrow> Inl e
                | Inr ts \<Rightarrow> Inr (Scatter (map fst (rows symbol_data)) y symbol False stackgroup # ts))))"

definition multi_view :: "(cell \<Rightarrow> str) \<Rightarrow> str list \<Rightarrow> (str \<rightharpoonup> frame) \<Rightarrow> event list" where
  "multi_view fmt symbols raw_data =
     raising (shape_multi raw_data symbols) (\<lambda>df.
     Subheader (128197 # ascii '' Raw Data Preview'') #
     raising (getitem_list df (map ascii [''Date'', ''Symbol'', ''Open'', ''High'', ''Low'', ''Close'', ''Volume'']))
       (\<lambda>preview.
     Dataframe (head preview) #
     Subheader (128200 # ascii '' Closing Price Trend Comparison'') #
     raising (column_traces raw_data (ascii ''Close'') None symbols) (\<lambda>closes.
     PlotlyChart (Figure closes (ascii ''Closing Price Over Time'') (ascii ''Date'') (ascii ''Price (USD)'')) #
     Subheader (128202 # ascii '' Volume Comparison'') #
     raising (column_traces raw_data (ascii ''Volume'') (Some (ascii ''one'')) symbols) (\<lambda>volumes.
     PlotlyChart (Figure volumes (ascii ''Volume Traded Over Time'') (ascii ''Date'') (ascii ''Volume'')) #
     [DownloadButton (to_csv fmt df) (ascii ''multi_stock_data.csv'')]))))"

subsection \<open>The script\<close>

text \<open>
  The sidebar widgets are the inputs of a run. \<^verbatim>\<open>yf.download\<close> is a collaborator:
  it fails with a message, or returns a frame when it is asked for one ticker and
  frames grouped by ticker otherwise; the two components are its two result shapes.
\<close>

record inputs =
  symbol_input :: str
  start_date :: date
  end_date :: date
  show_ma :: bool

record yfinance =
  download_one :: "str list \<Rightarrow> date \<Rightarrow> date \<Rightarrow> str + frame"
  download_many :: "str list \<Rightarrow> date \<Rightarrow> date \<Rightarrow> str + (str \<rightharpoonup> frame)"

text \<open>Lines 8 to 10.\<close>

definition page_header :: "event list" where
  "page_header =
     [PageConfig,
      Title (128202 # ascii '' Live Stock Market Dashboard''),
      Markdown (ascii ''View real-time stock prices, candlestick charts, trends, and volume with optional moving averages.'')]"

text \<open>
  Lines 27 to 129. \<^verbatim>\<open>st.stop()\<close> in the handler ends the run after the error
  message. The spinner's caption starts with an hourglass (9203) and the prompt with a
  pointing hand (128072). \<open>full\<close> is the uppercase table of \<^verbatim>\<open>str.upper\<close>.
\<close>

definition run :: "(codepoint \<Rightarrow> str) \<Rightarrow> (cell \<Rightarrow> str) \<Rightarrow> yfinance \<Rightarrow> inputs \<Rightarrow> event list" where
  "run full fmt yf inp =
     page_header @
     (let symbols = resolve_symbols full (symbol_input inp) in
      if symbols \<noteq> [] then
        Spinner (9203 # ascii '' Loading data...'') #
        LoadStockData symbols (start_date inp) (end_date inp) #
        (if length symbols = 1 then
           (case download_one yf symbols (start_date inp) (end_date inp) of
              Inl e \<Rightarrow> [Error (ascii ''Failed to fetch stock data: '' @ e)]
            | Inr raw_data \<Rightarrow> single_view fmt (symbols ! 0) (show_ma inp) raw_data)
         else
           (case download_many yf symbols (start_date inp) (end_date inp) of
              Inl e \<Rightarrow> [Error (ascii ''Failed to fetch stock data: '' @ e)]
            | Inr raw_data \<Rightarrow> multi_view fmt symbols raw_data))
      else [Warning (128072 # ascii '' Please enter at least one valid stock symbol.'')])"

subsection \<open>Notions used in the statements\<close>


text \<open>The exports of a run: data and file name of each download button.\<close>

fun exports :: "event list \<Rightarrow> (str \<times> str) list" where
  "exports [] = []"
| "exports (DownloadButton data file_name # es) = (data, file_name) # exports es"
| "exports (e # es) = exports es"

definition first_line :: "str \<Rightarrow> str" where
  "first_line data = takeWhile (\<lambda>c. c \<noteq> 10) data"

text \<open>
  The columns \<^verbatim>\<open>yf.download\<close> gives for a ticker under \<^verbatim>\<open>auto_adjust=True\<close>, and
  a frame of prices: these columns under an index named \<^verbatim>\<open>Date\<close>, with a number in
  every cell.
\<close>

definition ohlcv :: "str list" where
  "ohlcv = map ascii [''Open'', ''High'', ''Low'', ''Close'', ''Volume'']"

definition price_frame :: "frame \<Rightarrow> bool" where
  "price_frame f \<longleftrightarrow>
     index_name f = Some (ascii ''Date'') \<and> columns f = ohlcv
     \<and> list_all (\<lambda>r. length (snd r) = 5 \<and> list_all is_numeric (snd r)) (rows f)"

text \<open>
  The fetched data has, for each of the symbols, a frame with the columns \<open>cols\<close> and
  one cell per column in every row.
\<close>

definition fetched_with :: "str list \<Rightarrow> (str \<rightharpoonup> frame) \<Rightarrow> str list \<Rightarrow> bool" where
  "fetched_with cols raw_data symbols =
     list_all (\<lambda>s. case raw_data s of
                      None \<Rightarrow> False
                    | Some f \<Rightarrow> columns f = cols
                        \<and> list_all (\<lambda>r. length (snd r) = length cols) (rows f)) symbols"

text \<open>
  The cells of a column, and the frame that has the index of \<open>f\<close> as its first
  column, under the name \<open>name\<close>.
\<close>

definition col :: "frame \<Rightarrow> str \<Rightarrow> cell list" where
  "col f name = map (\<lambda>r. cell_at (snd r) (index_of (columns f) name)) (rows f)"

definition with_index :: "frame \<Rightarrow> str \<Rightarrow> frame" where
  "with_index f name = \<lparr>index_name = None, columns = name # columns f,
      rows = range_index (map (\<lambda>r. fst r # snd r) (rows f))\<rparr>"

text \<open>The requested symbols that the fetched data does not have, in request order.\<close>

definition absent :: "(str \<rightharpoonup> frame) \<Rightarrow> str list \<Rightarrow> str list" where
  "absent raw_data symbols = filter (\<lambda>s. raw_data s = None) symbols"

text \<open>
  The table of a request for several symbols as the specification describes it: the
  rows of each symbol's frame in their order, each with the symbol and its date, one
  symbol after the other in request order; a symbol without data adds no row.
\<close>

definition spec_rows :: "(str \<rightharpoonup> frame) \<Rightarrow> str list \<Rightarrow> cell list list" where
  "spec_rows raw_data symbols =
     concat (map (\<lambda>s. case raw_data s of
                         None \<Rightarrow> []
                       | Some f \<Rightarrow> map (\<lambda>r. snd r @ [Text s, fst r]) (rows f)) symbols)"

text \<open>
  A column that holds an \<^verbatim>\<open>int64\<close>, a \<^verbatim>\<open>float64\<close> and a cell that is no number.
  pandas has no such column in a fetched frame, where every column has one dtype.
\<close>

definition mixed :: "cell list \<Rightarrow> bool" where
  "mixed cs \<longleftrightarrow> list_ex is_int64 cs \<and> list_ex is_float64 cs \<and> \<not> list_all is_numeric cs"

text \<open>A frame whose rows are tagged with a symbol, the way line 89 tags them.\<close>

definition tagged_with :: "str \<Rightarrow> frame \<Rightarrow> bool" where
  "tagged_with symbol df \<longleftrightarrow>
     getitem df (ascii ''Symbol'') = Inr (replicate (length (rows df)) (Text symbol))"

text \<open>
  The number a cell holds, NaN and cells that are no numbers giving \<open>None\<close>; and a
  whole number of magnitude at most \<open>2 ^ 50\<close>, on which sums of a few values are
  exact in \<^verbatim>\<open>float64\<close>.
\<close>

fun number :: "cell \<Rightarrow> real option" where
  "number (Float64 v) = v"
| "number (Int64 n) = Some (of_int n)"
| "number (Text s) = None"
| "number (Timestamp d) = None"

definition whole :: "real \<Rightarrow> bool" where
  "whole x \<longleftrightarrow> x = of_int \<lfloor>x\<rfloor> \<and> \<bar>x\<bar> \<le> 2 ^ 50"

definition whole_cell :: "cell \<Rightarrow> bool" where
  "whole_cell c = (case number c of None \<Rightarrow> True | Some x \<Rightarrow> whole x)"

subsection \<open>The pass of the rolling mean: what its state holds\<close>






subsection \<open>Reading CSV text back\<close>

text \<open>The states of a CSV reader: where in a field it is.\<close>

datatype mode = Start | Plain | InQuotes | AfterQuote

text \<open>
  Modelled from the spec: the reader that re-parses the exported text. The repository
  has no CSV reader; the round trip of the specification is stated against this one,
  which reads the format of Python's \<^verbatim>\<open>csv\<close> module: fields separated by commas,
  records ended by line feeds, a field in double quotes running to its closing quote,
  with two double quotes inside for one. An empty line is a record without fields.
  \<open>cur\<close> is the field being read, reversed, and \<open>row\<close> the fields of the record
  read so far, last first.
\<close>

fun reader :: "mode \<Rightarrow> str \<Rightarrow> str list \<Rightarrow> str \<Rightarrow> str list list" where
  "reader Start cur row [] = (if row = [] then [] else [rev ([] # row)])"
| "reader Plain cur row [] = [rev (rev cur # row)]"
| "reader InQuotes cur row [] = [rev (rev cur # row)]"
| "reader AfterQuote cur row [] = [rev (rev cur # row)]"
| "reader Start cur row (c # cs) =
     (if c = 34 then reader InQuotes [] row cs
      else if c = 44 then reader Start [] ([] # row) cs
      else if c = 10 then (if row = [] then [] else rev ([] # row)) # reader Start [] [] cs
      else reader Plain [c] row cs)"
| "reader Plain cur row (c # cs) =
     (if c = 44 then reader Start [] (rev cur # row) cs
      else if c = 10 then rev (rev cur # row) # reader Start [] [] cs
      else reader Plain (c # cur) row cs)"
| "reader InQuotes cur row (c # cs) =
     (if c = 34 then reader AfterQuote cur row cs
      else reader InQuotes (c # cur) row cs)"
| "reader AfterQuote cur row (c # cs) =
     (if c = 34 then reader InQuotes (c # cur) row cs
      else if c = 44 then reader Start [] (rev cur # row) cs
      else if c = 10 then rev (rev cur # row) # reader Start [] [] cs
      else reader Plain (c # cur) row cs)"

text \<open>Modelled from the spec: re-parsing an exported text, from its first character.\<close>

definition parse_csv :: "str \<Rightarrow> str list list" where
  "parse_csv data = reader Start [] [] data"

text \<open>
  Modelled from the spec: the values of an observation. A symbol is a text, a date is
  a date, and a price or a volume is a number or missing; an integer and the
  \<^verbatim>\<open>float64\<close> of the same value are the same number.
\<close>

datatype datum = TextV str | DateV date | NumV "real option"

fun value_of :: "cell \<Rightarrow> datum" where
  "value_of (Float64 v) = NumV v"
| "value_of (Int64 n) = NumV (Some (of_int n))"
| "value_of (Text s) = TextV s"
| "value_of (Timestamp d) = DateV d"

text \<open>
  Modelled from the spec: an observation is a row read by column label, in the order
  symbol, date, open, high, low, close, volume, with \<open>None\<close> for a column that the
  table does not have. \<open>get\<close> reads the value of a field under a column label.
\<close>

definition tuple_columns :: "str list" where
  "tuple_columns = map ascii [''Symbol'', ''Date'', ''Open'', ''High'', ''Low'', ''Close'', ''Volume'']"

definition tuple_of :: "(str \<Rightarrow> 'a \<Rightarrow> datum) \<Rightarrow> str list \<Rightarrow> 'a list \<Rightarrow> datum option list" where
  "tuple_of get header items =
     map (\<lambda>n. if n \<in> set header \<and> index_of header n < length items
               then Some (get n (items ! index_of header n)) else None) tuple_columns"

text \<open>Modelled from the spec: the observations of a table, row by row.\<close>

definition observations :: "frame \<Rightarrow> datum option list list" where
  "observations df = map (\<lambda>r. tuple_of (\<lambda>n. value_of) (columns df) (snd r)) (rows df)"

text \<open>
  Modelled from the spec: reading a field of the text back. The column label says what
  the field is: the symbol is the text itself, a date is read by \<open>rd\<close>, and any other
  field is a number read by \<open>rn\<close>, the empty text being the missing number. The
  observations read from a parsed text are those of its lines after the first, which
  has the column labels.
\<close>

definition read_field :: "(str \<Rightarrow> real) \<Rightarrow> (str \<Rightarrow> date) \<Rightarrow> str \<Rightarrow> str \<Rightarrow> datum" where
  "read_field rn rd name field =
     (if name = ascii ''Symbol'' then TextV field
      else if name = ascii ''Date'' then DateV (rd field)
      else NumV (if field = [] then None else Some (rn field)))"

definition read_back :: "(str \<Rightarrow> real) \<Rightarrow> (str \<Rightarrow> date) \<Rightarrow> str list list \<Rightarrow> datum option list list" where
  "read_back rn rd table =
     (case table of [] \<Rightarrow> [] | header # body \<Rightarrow> map (tuple_of (read_field rn rd) header) body)"

text \<open>
  A table is typed as a table of observations when its column Symbol holds texts, its
  column Date holds dates and its columns Open, High, Low, Close and Volume hold
  numbers.
\<close>

fun is_text :: "cell \<Rightarrow> bool" where
  "is_text (Float64 v) = False"
| "is_text (Int64 n) = False"
| "is_text (Text s) = True"
| "is_text (Timestamp d) = False"

fun is_timestamp :: "cell \<Rightarrow> bool" where
  "is_timestamp (Float64 v) = False"
| "is_timestamp (Int64 n) = False"
| "is_timestamp (Text s) = False"
| "is_timestamp (Timestamp d) = True"

definition kind_ok :: "str \<Rightarrow> cell \<Rightarrow> bool" where
  "kind_ok name c =
     (if name = ascii ''Symbol'' then is_text c
      else if name = ascii ''Date'' then is_timestamp c
      else is_numeric c)"

definition well_typed :: "frame \<Rightarrow> bool" where
  "well_typed df \<longleftrightarrow>
     list_all (\<lambda>r. list_all (\<lambda>n. if n \<in> set (columns df) \<and> index_of (columns df) n < length (snd r)
                                 then kind_ok n (snd r ! index_of (columns df) n) else True)
                        tuple_columns)
       (rows df)"

text \<open>
  The values of a table are printed readably when the text that \<open>fmt\<close> prints for a
  number is not empty and is read by \<open>rn\<close> as that number, and the text it prints for
  a date is read by \<open>rd\<close> as that date.
\<close>

definition legible :: "(cell \<Rightarrow> str) \<Rightarrow> (str \<Rightarrow> real) \<Rightarrow> (str \<Rightarrow> date) \<Rightarrow> cell \<Rightarrow> bool" where
  "legible fmt rn rd c =
     (case c of
        Float64 None \<Rightarrow> True
      | Float64 (Some x) \<Rightarrow> fmt c \<noteq> [] \<and> rn (fmt c) = x
      | Int64 n \<Rightarrow> fmt c \<noteq> [] \<and> rn (fmt c) = of_int n
      | Text s \<Rightarrow> True
      | Timestamp d \<Rightarrow> rd (fmt c) = d)"

definition readable :: "(cell \<Rightarrow> str) \<Rightarrow> (str \<Rightarrow> real) \<Rightarrow> (str \<Rightarrow> date) \<Rightarrow> frame \<Rightarrow> bool" where
  "readable fmt rn rd df \<longleftrightarrow> list_all (\<lambda>r. list_all (legible fmt rn rd) (snd r)) (rows df)"

text \<open>
  The texts of a frame: its column labels, then its rows as they are printed; and the
  text of a quoted field between its quotes.
\<close>

definition table_texts :: "(cell \<Rightarrow> str) \<Rightarrow> frame \<Rightarrow> str list list" where
  "table_texts fmt df = columns df # map (\<lambda>r. map (render fmt) (snd r)) (rows df)"

definition escape :: "str \<Rightarrow> str" where
  "escape field = concat (map (\<lambda>c. if c = 34 then [c, c] else [c]) field)"

subsection \<open>Sample data\<close>

text \<open>
  Decimal digits, to print and to read the numbers of the samples: a \<^verbatim>\<open>float64\<close> as
  its whole part followed by \<^verbatim>\<open>.0\<close>, a date as \<^verbatim>\<open>day\<close> and its number.
\<close>

function show_nat :: "nat \<Rightarrow> str" where
  "show_nat n = (if n < 10 then [48 + n] else show_nat (n div 10) @ [48 + n mod 10])"
  by pat_completeness auto
termination
  by (relation "measure id") auto

definition read_nat :: "str \<Rightarrow> nat" where
  "read_nat s = foldl (\<lambda>a c. 10 * a + (c - 48)) 0 s"

fun sample_fmt :: "cell \<Rightarrow> str" where
  "sample_fmt (Float64 v) = (case v of None \<Rightarrow> [] | Some r \<Rightarrow> show_nat (nat \<lfloor>r\<rfloor>) @ ascii ''.0'')"
| "sample_fmt (Int64 n) = show_nat (nat n)"
| "sample_fmt (Text s) = s"
| "sample_fmt (Timestamp d) = ascii ''day '' @ show_nat (nat d)"

definition sample_rn :: "str \<Rightarrow> real" where
  "sample_rn s = real (read_nat (takeWhile (\<lambda>c. c \<noteq> 46) s))"

definition sample_rd :: "str \<Rightarrow> date" where
  "sample_rd s = int (read_nat (drop 4 s))"

text \<open>
  An uppercase table for the samples: the mapping of the Unicode database on the
  Latin-1 block, where the sharp s (223) becomes two letters, and no change beyond.
\<close>

definition sample_full :: "codepoint \<Rightarrow> str" where
  "sample_full c =
     (if c = 223 then [83, 83]
      else if c = 181 then [924]
      else if c = 255 then [376]
      else if 224 \<le> c \<and> c \<le> 254 \<and> c \<noteq> 247 then [c - 32]
      else [c])"

definition aapl :: frame where
  "aapl = \<lparr>index_name = Some (ascii ''Date''), columns = ohlcv,
           rows = [(Timestamp 19360, [Float64 (Some 125), Float64 (Some 131), Float64 (Some 124), Float64 (Some 125), Int64 1000]),
                   (Timestamp 19361, [Float64 (Some 126), Float64 (Some 129), Float64 (Some 125), Float64 (Some 127), Int64 900])]\<rparr>"

definition msft :: frame where
  "msft = \<lparr>index_name = Some (ascii ''Date''), columns = ohlcv,
           rows = [(Timestamp 19360, [Float64 (Some 240), Float64 (Some 246), Float64 (Some 237), Float64 (Some 239), Int64 500])]\<rparr>"

text \<open>A frame with a day on which no volume is known: its column Volume is \<^verbatim>\<open>float64\<close>.\<close>

definition tsla :: frame where
  "tsla = \<lparr>index_name = Some (ascii ''Date''), columns = ohlcv,
           rows = [(Timestamp 19360, [Float64 (Some 110), Float64 (Some 115), Float64 (Some 108), Float64 (Some 113), Float64 None])]\<rparr>"


text \<open>A table of two symbols as the loop builds it, one symbol with a double quote in it.\<close>

definition tidy :: frame where
  "tidy = \<lparr>index_name = None, columns = ohlcv @ map ascii [''Symbol'', ''Date''],
           rows = [(Int64 0, [Float64 (Some 125), Float64 (Some 131), Float64 (Some 124), Float64 (Some 125), Float64 (Some 1000),
                              Text (ascii ''AAPL''), Timestamp 19360]),
                   (Int64 1, [Float64 (Some 110), Float64 (Some 115), Float64 (Some 108), Float64 (Some 113), Float64 None,
                              Text [66, 82, 75, 34, 66], Timestamp 19361])]\<rparr>"

definition sample_yf :: yfinance where
  "sample_yf = \<lparr>download_one = (\<lambda>symbols start end. if symbols = [ascii ''AAPL''] then Inr aapl else Inl (ascii ''no data'')),
                download_many = (\<lambda>symbols start end.
                   if set symbols \<subseteq> {ascii ''AAPL'', ascii ''MSFT''} then Inr [ascii ''AAPL'' \<mapsto> aapl, ascii ''MSFT'' \<mapsto> msft]
                   else Inl (ascii ''no data''))\<rparr>"

text \<open>A run of the script on the symbol text \<open>txt\<close>, with the moving average shown.\<close>

definition request :: "str \<Rightarrow> inputs" where
  "request txt = \<lparr>symbol_input = txt, start_date = 19358, end_date = 19500, show_ma = True\<rparr>"

subsection \<open>Text: properties\<close>

lemma ascii_eq_iff [simp]: "ascii s = ascii t \<longleftrightarrow> s = t"
  by (simp add: ascii_def inj_map_eq_map inj_on_def)

lemma ascii_Nil [simp]: "ascii [] = []"
  by (simp add: ascii_def)

lemma ascii_append: "ascii s @ ascii t = ascii (s @ t)"
  by (simp add: ascii_def)

subsection \<open>Symbol list: properties\<close>

lemma comprehension_map_filter:
  "comprehension full es = map (\<lambda>e. upper full (strip e)) (filter (\<lambda>e. strip e \<noteq> []) es)"
  by (induction es) simp_all

lemma resolve_symbols_pipeline: "resolve_symbols full txt = spec_symbols full txt"
  by (simp add: resolve_symbols_def spec_symbols_def comprehension_map_filter filter_map o_def)

lemma split_from_not_Nil: "split_from sep cur cs \<noteq> []"
  by (induction cs arbitrary: cur) simp_all

lemma join_split_from: "join sep (split_from sep cur cs) = rev cur @ cs"
proof (induction cs arbitrary: cur)
  case Nil
  show ?case by simp
next
  case (Cons c cs)
  show ?case
  proof (cases "c = sep")
    case True
    obtain p ps where ps: "split_from sep [] cs = p # ps"
      using split_from_not_Nil [of sep "[]" cs] by (cases "split_from sep [] cs") simp_all
    have "join sep (p # ps) = cs"
      using Cons.IH [of "[]"] ps by simp
    then show ?thesis
      using True ps by simp
  next
    case False
    then show ?thesis
      using Cons.IH [of "c # cur"] by simp
  qed
qed

lemma set_split_from:
  "sep \<notin> set cur \<Longrightarrow> set (concat (split_from sep cur cs)) = (set cur \<union> set cs) - {sep}"
  by (induction cs arbitrary: cur) auto

lemma strip_parts:
  "e = takeWhile isspace e @ strip e @ rev (takeWhile isspace (rev (dropWhile isspace e)))"
proof -
  let ?rest = "dropWhile isspace e"
  have "rev (takeWhile isspace (rev ?rest) @ dropWhile isspace (rev ?rest)) = rev (rev ?rest)"
    by (simp only: takeWhile_dropWhile_id)
  then have "rev (dropWhile isspace (rev ?rest)) @ rev (takeWhile isspace (rev ?rest)) = ?rest"
    by (simp only: rev_append rev_rev_ident)
  then have "takeWhile isspace e @ strip e @ rev (takeWhile isspace (rev ?rest))
      = takeWhile isspace e @ ?rest"
    by (simp only: strip_def)
  then show ?thesis
    by (simp only: takeWhile_dropWhile_id)
qed

lemma strip_last: "strip e \<noteq> [] \<Longrightarrow> \<not> isspace (last (strip e))"
  using hd_dropWhile [of isspace "rev (dropWhile isspace e)"]
  by (simp add: strip_def last_rev)

lemma strip_hd: "strip e \<noteq> [] \<Longrightarrow> \<not> isspace (hd (strip e))"
proof -
  assume ne: "strip e \<noteq> []"
  let ?rest = "dropWhile isspace e"
  have "?rest = strip e @ rev (takeWhile isspace (rev ?rest))"
    using strip_parts [of e] by (metis same_append_eq takeWhile_dropWhile_id)
  then have "hd ?rest = hd (strip e)"
    using ne by (metis hd_append2)
  moreover have "?rest \<noteq> []"
  proof
    assume r: "?rest = []"
    have "strip e = rev (dropWhile isspace (rev ?rest))" by (simp only: strip_def)
    also have "\<dots> = []" unfolding r by simp
    finally have "strip e = []" .
    with ne show False by simp
  qed
  ultimately show ?thesis
    using hd_dropWhile [of isspace e] by simp
qed

lemma isspace_cases:
  "isspace c \<longleftrightarrow> c \<in> {9, 10, 11, 12, 13, 28, 29, 30, 31, 32, 133, 160, 5760, 8192, 8193, 8194,
      8195, 8196, 8197, 8198, 8199, 8200, 8201, 8202, 8232, 8233, 8239, 8287, 12288}"
  unfolding isspace_def by (simp only: insert_iff empty_iff) presburger

lemma upper_append: "upper full (s @ t) = upper full s @ upper full t"
  by (simp add: upper_def)

lemma upper_alphabet:
  "upper full (ascii ''abcdefghijklmnopqrstuvwxyz'') = ascii ''ABCDEFGHIJKLMNOPQRSTUVWXYZ''"
  by (simp add: upper_def upper_char_def ascii_def)

lemma upper_letter: "97 \<le> c \<and> c \<le> 122 \<Longrightarrow> upper full [c] = [c - 32]"
  by (simp add: upper_def upper_char_def)

lemma upper_other: "c < 97 \<or> 122 < c \<and> c < 128 \<Longrightarrow> upper full [c] = [c]"
  by (auto simp: upper_def upper_char_def)

lemma upper_beyond: "128 \<le> c \<Longrightarrow> upper full [c] = full c"
  by (simp add: upper_def upper_char_def)

text \<open>
  C9. The symbol list computed by line 15 is the one the specification describes: the
  input split on commas, each entry trimmed, the entries that are then empty dropped,
  the others upper-cased, in their order. Splitting is on commas: joining the pieces
  with commas gives the input back, and no piece contains a comma. Trimming removes
  white space from both ends and nothing else: an entry is its trimmed text between
  two runs of white space, and the trimmed text neither starts nor ends in white space,
  where the white space is the 29 code points of \<^verbatim>\<open>str.isspace\<close>. Upper-casing
  works code point by code point: it turns the letters a to z (97 to 122) into A to Z
  (65 to 90), leaves every other ASCII character as it is, and maps a code point beyond
  ASCII as the uppercase table does.
\<close>

theorem symbols_normalised:
  "resolve_symbols full txt = spec_symbols full txt
   \<and> join 44 (split txt 44) = txt
   \<and> 44 \<notin> set (concat (split txt 44))
   \<and> (\<exists>a b. e = a @ strip e @ b \<and> list_all isspace a \<and> list_all isspace b)
   \<and> (strip e \<noteq> [] \<longrightarrow> \<not> isspace (hd (strip e)) \<and> \<not> isspace (last (strip e)))
   \<and> {c. isspace c} = {9, 10, 11, 12, 13, 28, 29, 30, 31, 32, 133, 160, 5760, 8192, 8193, 8194,
        8195, 8196, 8197, 8198, 8199, 8200, 8201, 8202, 8232, 8233, 8239, 8287, 12288}
   \<and> upper full (s @ t) = upper full s @ upper full t
   \<and> upper full (ascii ''abcdefghijklmnopqrstuvwxyz'') = ascii ''ABCDEFGHIJKLMNOPQRSTUVWXYZ''
   \<and> (97 \<le> l \<and> l \<le> 122 \<longrightarrow> upper full [l] = [l - 32])
   \<and> (c < 97 \<or> 122 < c \<and> c < 128 \<longrightarrow> upper full [c] = [c])
   \<and> (128 \<le> d \<longrightarrow> upper full [d] = full d)"
proof (intro conjI impI)
  show "resolve_symbols full txt = spec_symbols full txt"
    by (rule resolve_symbols_pipeline)
  show "join 44 (split txt 44) = txt"
    by (simp add: split_def join_split_from)
  show "44 \<notin> set (concat (split txt 44))"
    unfolding split_def by (subst set_split_from) simp_all
  have "list_all isspace (takeWhile isspace e)"
    by (simp add: list_all_iff) (meson set_takeWhileD)
  moreover have "list_all isspace (rev (takeWhile isspace (rev (dropWhile isspace e))))"
    by (simp add: list_all_iff) (meson set_takeWhileD)
  ultimately show "\<exists>a b. e = a @ strip e @ b \<and> list_all isspace a \<and> list_all isspace b"
    using strip_parts [of e] by blast
  show "{c. isspace c} = {9, 10, 11, 12, 13, 28, 29, 30, 31, 32, 133, 160, 5760, 8192, 8193, 8194,
        8195, 8196, 8197, 8198, 8199, 8200, 8201, 8202, 8232, 8233, 8239, 8287, 12288}"
    using isspace_cases by blast
  show "upper full (s @ t) = upper full s @ upper full t"
    by (rule upper_append)
  show "upper full (ascii ''abcdefghijklmnopqrstuvwxyz'') = ascii ''ABCDEFGHIJKLMNOPQRSTUVWXYZ''"
    by (rule upper_alphabet)
next
  assume "strip e \<noteq> []"
  then show "\<not> isspace (hd (strip e))" and "\<not> isspace (last (strip e))"
    by (simp_all add: strip_hd strip_last)
next
  assume "97 \<le> l \<and> l \<le> 122"
  then show "upper full [l] = [l - 32]" by (rule upper_letter)
next
  assume "c < 97 \<or> 122 < c \<and> c < 128"
  then show "upper full [c] = [c]" by (rule upper_other)
next
  assume "128 \<le> d"
  then show "upper full [d] = full d" by (rule upper_beyond)
qed

lemma strip_sample: "strip [160, 9, 97, 32, 98, 8195] = [97, 32, 98]"
  by (simp add: strip_def isspace_def)

theorem symbols_normalised_witness:
  "resolve_symbols sample_full ([160] @ ascii ''aapl, msft ,, stra'' @ [223] @ ascii ''e'' @ [9, 44])
     = [ascii ''AAPL'', ascii ''MSFT'', ascii ''STRASSE'']
   \<and> split (ascii ''aapl, msft ,,'') 44 = [ascii ''aapl'', ascii '' msft '', [], []]
   \<and> strip [160, 9, 97, 32, 98, 8195] = [97, 32, 98]
   \<and> \<not> isspace (hd (strip [160, 9, 97, 32, 98, 8195]))
   \<and> \<not> isspace (last (strip [160, 9, 97, 32, 98, 8195]))
   \<and> upper sample_full [113] = [81]
   \<and> (49 :: nat) < 97 \<and> upper sample_full [49] = [49]
   \<and> (128 :: nat) \<le> 223 \<and> upper sample_full [223] = [83, 83]"
proof -
  let ?txt = "[160] @ ascii ''aapl, msft ,, stra'' @ [223] @ ascii ''e'' @ [9, 44]"
  note t = symbols_normalised [of sample_full ?txt "[160, 9, 97, 32, 98, 8195]" _ _ 113 49 223]
  have "spec_symbols sample_full ?txt = [ascii ''AAPL'', ascii ''MSFT'', ascii ''STRASSE'']"
    by (simp add: spec_symbols_def split_def ascii_def strip_def isspace_def upper_def
        upper_char_def sample_full_def)
  moreover have "split (ascii ''aapl, msft ,,'') 44 = [ascii ''aapl'', ascii '' msft '', [], []]"
    by (simp add: split_def ascii_def)
  moreover have "sample_full 223 = [83, 83]"
    by (simp add: sample_full_def)
  moreover have "strip [160, 9, 97, 32, 98, 8195] \<noteq> []"
    by (simp add: strip_sample)
  ultimately show ?thesis
    using t strip_sample by simp
qed

subsection \<open>Rounding: properties\<close>

lemma pow2_pos: "0 < pow2 k"
  by (simp add: pow2_def)

lemma round_even_of_int: "round_even (of_int k) = k"
  by (simp add: round_even_def)





lemma fl_of_int:
  assumes "\<bar>n\<bar> \<le> 2 ^ 53"
  shows "fl (of_int n) = of_int n"
proof (cases "n = 0")
  case True
  then show ?thesis by (simp add: fl_def)
next
  case False
  let ?m = "\<bar>n\<bar>"
  have m: "0 < ?m" using False by simp
  let ?e = "bitlen ?m - 1"
  have ex: "exponent (of_int n) = ?e"
  proof -
    have "\<bar>real_of_int n\<bar> = of_int ?m" by simp
    moreover have "1 \<le> real_of_int ?m" using m by linarith
    ultimately show ?thesis
      by (simp add: exponent_def Let_def del: of_int_abs)
  qed
  have lo: "2 ^ nat ?e \<le> ?m" and e0: "0 \<le> ?e"
    using bitlen_bounds [OF m] m bitlen_nonneg [of ?m] bitlen_eq_zero_iff [of ?m]
    by (auto simp: le_less)
  have "?m < 2 ^ 54" using assms by simp
  then have "bitlen ?m \<le> 54"
    by (simp add: bitlen_le_iff_power)
  then have e53: "?e \<le> 53" by simp
  have q: "max (exponent (of_int n)) (- 1022) - 52 = ?e - 52"
    using ex e0 by simp
  have "\<exists>k. real_of_int n / pow2 (?e - 52) = of_int k"
  proof (cases "?e \<le> 52")
    case True
    then have "pow2 (?e - 52) = 1 / 2 ^ nat (52 - ?e)"
      by (cases "?e = 52") (simp_all add: pow2_def)
    then have "real_of_int n / pow2 (?e - 52) = of_int (n * 2 ^ nat (52 - ?e))"
      by simp
    then show ?thesis by blast
  next
    case False
    with e53 have e: "?e = 53" by simp
    then have "2 ^ 53 \<le> ?m" using lo by simp
    with assms have "?m = 2 ^ 53" by simp
    then have "n = 2 ^ 53 \<or> n = - (2 ^ 53)" by (simp add: abs_if split: if_splits)
    then have "real_of_int n / pow2 (?e - 52) = of_int (n div 2)"
      using e by (auto simp: pow2_def)
    then show ?thesis by blast
  qed
  then obtain k where k: "real_of_int n / pow2 (?e - 52) = of_int k" by blast
  have "fl (of_int n) = of_int (round_even (real_of_int n /
            pow2 (max (exponent (real_of_int n)) (- 1022) - 52))) *
          pow2 (max (exponent (real_of_int n)) (- 1022) - 52)"
    using False by (simp add: fl_def Let_def)
  also have "\<dots> = of_int (round_even (real_of_int n / pow2 (?e - 52))) * pow2 (?e - 52)"
    by (simp only: q)
  also have "\<dots> = of_int k * pow2 (?e - 52)"
    by (simp only: k round_even_of_int)
  also have "\<dots> = real_of_int n"
    using k pow2_pos [of "?e - 52"] by (simp add: field_simps)
  finally show ?thesis .
qed

subsection \<open>Rolling mean: properties\<close>










subsection \<open>Rolling mean: the window and the state\<close>













lemma whole_iff: "whole x \<longleftrightarrow> (\<exists>m::int. x = of_int m \<and> \<bar>m\<bar> \<le> 2 ^ 50)"
proof
  assume w: "whole x"
  then have x: "x = of_int \<lfloor>x\<rfloor>" and "\<bar>x\<bar> \<le> 2 ^ 50"
    by (simp_all add: whole_def)
  then have "\<bar>of_int \<lfloor>x\<rfloor> :: real\<bar> \<le> 2 ^ 50" by simp
  then have "\<bar>\<lfloor>x\<rfloor>\<bar> \<le> 2 ^ 50"
    by (simp only: of_int_abs [symmetric] of_int_le_numeral_power_cancel_iff)
  with x show "\<exists>m::int. x = of_int m \<and> \<bar>m\<bar> \<le> 2 ^ 50" by blast
next
  assume "\<exists>m::int. x = of_int m \<and> \<bar>m\<bar> \<le> 2 ^ 50"
  then obtain m :: int where m: "x = of_int m" "\<bar>m\<bar> \<le> 2 ^ 50" by blast
  from m(2) have "\<bar>of_int m :: real\<bar> \<le> 2 ^ 50"
    by (simp only: of_int_abs [symmetric] of_int_le_numeral_power_cancel_iff)
  then show "whole x"
    by (simp add: whole_def m(1))
qed

lemma whole_fl: "whole x \<Longrightarrow> fl x = x"
proof -
  assume "whole x"
  then obtain m :: int where m: "x = of_int m" "\<bar>m\<bar> \<le> 2 ^ 50"
    by (auto simp: whole_iff)
  have "(2::int) ^ 50 \<le> 2 ^ 53" by simp
  with m(2) have "\<bar>m\<bar> \<le> 2 ^ 53" by (rule order_trans)
  then show ?thesis
    by (simp only: m(1) fl_of_int)
qed



















lemma remove_mean_run [simp]:
  "num_consecutive_same_value (remove_mean v st) = num_consecutive_same_value st"
  "prev_value (remove_mean v st) = prev_value st"
  by (cases v; simp add: remove_mean_def Let_def)+



subsection \<open>Rolling mean of a column: properties\<close>


lemma whole_cell_to_float: "is_numeric c \<Longrightarrow> whole_cell c \<Longrightarrow> to_float c = number c"
proof (cases c)
  case (Int64 n)
  assume "whole_cell c"
  with Int64 have "whole (of_int n)" by (simp add: whole_cell_def)
  then have "fl (of_int n) = of_int n" by (rule whole_fl)
  with Int64 show ?thesis by simp
qed simp_all

lemma whole_cell_whole:
  "is_numeric c \<Longrightarrow> whole_cell c \<Longrightarrow> to_float c = None \<or> (\<exists>x. to_float c = Some x \<and> whole x)"
  using whole_cell_to_float [of c] by (cases "number c") (auto simp: whole_cell_def)

lemma to_float_rounds: "to_float (Int64 9007199254740993) = Some 9007199254740992"
proof -
  have "fl 9007199254740993 = 9007199254740992" by code_simp
  then show ?thesis by simp
qed




subsection \<open>Frames: properties\<close>

lemma length_rows_aapl: "length (rows aapl) = 2"
  by (simp add: aapl_def)

lemma length_rows_msft: "length (rows msft) = 1"
  by (simp add: msft_def)

lemma length_rows_tsla: "length (rows tsla) = 1"
  by (simp add: tsla_def)

lemma length_range_index: "length (range_index data) = length data"
  by (simp add: range_index_def)

lemma map_snd_range_index: "map snd (range_index data) = data"
  by (simp add: range_index_def)

lemma map2_replicate: "map2 f xs (replicate (length xs) v) = map (\<lambda>x. f x v) xs"
  by (induction xs) simp_all

lemma map2_map_same: "map2 f xs (map g xs) = map (\<lambda>x. f x (g x)) xs"
  by (induction xs) simp_all

subsection \<open>One dtype per column: properties\<close>

lemma length_unify: "length (unify data) = length data"
  by (simp add: unify_def)

lemma map_enumerate: "map (\<lambda>(j, c). f j c) (enumerate 0 cs) = map (\<lambda>j. f j (cs ! j)) [0..<length cs]"
  by (rule nth_equalityI) (simp_all add: nth_enumerate_eq)

lemma unify_rows:
  "unify data = map (\<lambda>r. map (\<lambda>j. if float_column (column_of j data) then upcast (r ! j) else r ! j)
                            [0..<length r]) data"
  unfolding unify_def by (simp only: map_enumerate)

lemma length_unify_row: "r \<in> set (unify data) \<Longrightarrow> \<exists>r' \<in> set data. length r = length r'"
  by (auto simp: unify_rows)

lemma column_of_append: "column_of j (a @ b) = column_of j a @ column_of j b"
  by (simp add: column_of_def)

lemma is_numeric_upcast [simp]: "is_numeric (upcast c) = is_numeric c"
  by (cases c) simp_all

lemma list_all_numeric_upcast [simp]: "list_all is_numeric (map upcast xs) = list_all is_numeric xs"
  by (induction xs) simp_all

lemma is_float64_upcast: "is_float64 c \<Longrightarrow> is_float64 (upcast c)"
  by (cases c) simp_all

lemma upcast_upcast [simp]: "upcast (upcast c) = upcast c"
  by (cases c) simp_all

lemma upcast_not_int: "\<not> is_int64 c \<Longrightarrow> upcast c = c"
  by (cases c) simp_all

lemma column_of_unify:
  "column_of j (unify data)
     = map (\<lambda>c. if float_column (column_of j data) then upcast c else c) (column_of j data)"
proof -
  have "\<And>r. cell_at (map (\<lambda>k. if float_column (column_of k data) then upcast (r ! k) else r ! k)
                        [0..<length r]) j
         = (if float_column (column_of j data) then upcast (cell_at r j) else cell_at r j)"
    by (simp add: cell_at_def)
  then show ?thesis
    by (simp add: column_of_def unify_rows o_def)
qed

lemma float_column_unify: "float_column (column_of j (unify a @ b)) = float_column (column_of j (a @ b))"
proof (cases "float_column (column_of j a)")
  case False
  then show ?thesis
    by (simp add: column_of_append column_of_unify)
next
  case True
  then have num: "list_all is_numeric (column_of j a)" and ex: "list_ex is_float64 (column_of j a)"
    by (simp_all add: float_column_def)
  from ex have "list_ex is_float64 (map upcast (column_of j a))"
    using is_float64_upcast by (fastforce simp: list_ex_iff)
  with True num ex show ?thesis
    by (simp add: column_of_append column_of_unify float_column_def)
qed

lemma cell_in_column: "r \<in> set data \<Longrightarrow> j < length r \<Longrightarrow> r ! j \<in> set (column_of j data)"
  by (auto simp: column_of_def cell_at_def image_iff intro!: bexI [of _ r])

lemma unify_unify_append:
  assumes "\<forall>r\<in>set a. \<forall>j<length r. \<not> mixed (column_of j (a @ b))"
  shows "unify (unify a @ b) = unify (a @ b)"
proof -
  let ?F = "\<lambda>j. float_column (column_of j (a @ b))"
  let ?A = "\<lambda>j. float_column (column_of j a)"
  have same: "\<And>r j. r \<in> set a \<Longrightarrow> j < length r \<Longrightarrow>
      (if ?F j then upcast (if ?A j then upcast (r ! j) else r ! j) else (if ?A j then upcast (r ! j) else r ! j))
        = (if ?F j then upcast (r ! j) else r ! j)"
  proof -
    fix r j assume r: "r \<in> set a" and j: "j < length r"
    show "(if ?F j then upcast (if ?A j then upcast (r ! j) else r ! j) else (if ?A j then upcast (r ! j) else r ! j))
        = (if ?F j then upcast (r ! j) else r ! j)"
    proof (cases "?A j \<and> \<not> ?F j")
      case False
      then show ?thesis by auto
    next
      case True
      then have fl: "list_ex is_float64 (column_of j (a @ b))"
        by (auto simp: float_column_def column_of_append)
      with True have "\<not> list_all is_numeric (column_of j (a @ b))"
        by (simp add: float_column_def)
      moreover from assms r j have "\<not> mixed (column_of j (a @ b))" by blast
      ultimately have "\<not> list_ex is_int64 (column_of j (a @ b))"
        using fl by (simp add: mixed_def)
      moreover have "r ! j \<in> set (column_of j (a @ b))"
        using cell_in_column [OF r j] by (simp add: column_of_append)
      ultimately have "\<not> is_int64 (r ! j)"
        by (auto simp: list_ex_iff)
      then have "upcast (r ! j) = r ! j" by (rule upcast_not_int)
      with True show ?thesis by simp
    qed
  qed
  have "unify (unify a @ b)
      = map (\<lambda>r. map (\<lambda>j. if ?F j then upcast (r ! j) else r ! j) [0..<length r]) (unify a @ b)"
    by (simp only: unify_rows [of "unify a @ b"] float_column_unify)
  also have "\<dots> = map (\<lambda>r. map (\<lambda>j. if ?F j then upcast (r ! j) else r ! j) [0..<length r]) (unify a)
        @ map (\<lambda>r. map (\<lambda>j. if ?F j then upcast (r ! j) else r ! j) [0..<length r]) b"
    by simp
  also have "map (\<lambda>r. map (\<lambda>j. if ?F j then upcast (r ! j) else r ! j) [0..<length r]) (unify a)
      = map (\<lambda>r. map (\<lambda>j. if ?F j then upcast (r ! j) else r ! j) [0..<length r]) a"
  proof -
    let ?g = "\<lambda>r. map (\<lambda>j. if ?A j then upcast (r ! j) else r ! j) [0..<length r]"
    have row: "\<And>r. r \<in> set a \<Longrightarrow>
        map (\<lambda>j. if ?F j then upcast (?g r ! j) else ?g r ! j) [0..<length (?g r)]
          = map (\<lambda>j. if ?F j then upcast (r ! j) else r ! j) [0..<length r]"
    proof -
      fix r assume r: "r \<in> set a"
      show "map (\<lambda>j. if ?F j then upcast (?g r ! j) else ?g r ! j) [0..<length (?g r)]
          = map (\<lambda>j. if ?F j then upcast (r ! j) else r ! j) [0..<length r]"
      proof (rule nth_equalityI)
        show "length (map (\<lambda>j. if ?F j then upcast (?g r ! j) else ?g r ! j) [0..<length (?g r)])
            = length (map (\<lambda>j. if ?F j then upcast (r ! j) else r ! j) [0..<length r])"
          by simp
      next
        fix i assume "i < length (map (\<lambda>j. if ?F j then upcast (?g r ! j) else ?g r ! j) [0..<length (?g r)])"
        then have i: "i < length r" by simp
        from same [OF r i] i
        show "map (\<lambda>j. if ?F j then upcast (?g r ! j) else ?g r ! j) [0..<length (?g r)] ! i
            = map (\<lambda>j. if ?F j then upcast (r ! j) else r ! j) [0..<length r] ! i"
          by (auto split: if_splits)
      qed
    qed
    have "map (\<lambda>r. map (\<lambda>j. if ?F j then upcast (r ! j) else r ! j) [0..<length r]) (unify a)
        = map (\<lambda>r. map (\<lambda>j. if ?F j then upcast (?g r ! j) else ?g r ! j) [0..<length (?g r)]) a"
      by (simp only: unify_rows [of a] map_map o_def)
    also have "\<dots> = map (\<lambda>r. map (\<lambda>j. if ?F j then upcast (r ! j) else r ! j) [0..<length r]) a"
      using row by (rule map_cong [OF refl])
    finally show ?thesis .
  qed
  finally show ?thesis
    by (simp add: unify_rows [of "a @ b"])
qed

lemma mixed_append: "mixed (column_of j a) \<Longrightarrow> mixed (column_of j (a @ b))"
  by (auto simp: mixed_def column_of_append)

lemma length_rows_concat_frames:
  "length (rows (concat_frames a b)) = length (rows a) + length (rows b)"
  by (simp add: concat_frames_def Let_def length_range_index length_unify)

lemma length_rows_tag_stock: "length (rows (tag_stock symbol f)) = length (rows f)"
  by (simp add: tag_stock_def setitem_def Let_def)

lemma shape_loop_absent:
  "absent raw_data symbols = s # ss \<Longrightarrow> shape_loop raw_data df symbols = Inl (KeyError s)"
  by (induction symbols arbitrary: df) (auto simp: absent_def split: option.splits if_splits)

lemma shape_loop_present:
  "absent raw_data symbols = [] \<Longrightarrow>
   \<exists>df'. shape_loop raw_data df symbols = Inr df'
     \<and> length (rows df') = length (rows df) + (\<Sum>s\<leftarrow>symbols. length (rows (the (raw_data s))))"
proof (induction symbols arbitrary: df)
  case Nil
  show ?case by simp
next
  case (Cons s symbols)
  from Cons.prems obtain f where f: "raw_data s = Some f" and rest: "absent raw_data symbols = []"
    by (auto simp: absent_def split: if_splits)
  from Cons.IH [OF rest, of "concat_frames df (tag_stock s f)"] f
  show ?case
    by (auto simp: length_rows_concat_frames length_rows_tag_stock)
qed

lemma index_of_nth: "distinct cols \<Longrightarrow> k < length cols \<Longrightarrow> index_of cols (cols ! k) = k"
proof (induction cols arbitrary: k)
  case Nil
  then show ?case by simp
next
  case (Cons c cols)
  then show ?case by (cases k) auto
qed

lemma reindex_same:
  "distinct cols \<Longrightarrow> length cs = length cols \<Longrightarrow> reindex cols cols cs = cs"
  by (rule nth_equalityI) (simp_all add: reindex_def cell_at_def index_of_nth)

lemma tag_stock_rows:
  assumes "ascii ''Symbol'' \<notin> set (columns f)" "ascii ''Date'' \<notin> set (columns f)"
  shows "columns (tag_stock s f) = columns f @ [ascii ''Symbol'', ascii ''Date'']"
    and "rows (tag_stock s f) = map (\<lambda>r. (fst r, snd r @ [Text s, fst r])) (rows f)"
proof -
  let ?tagged = "setitem f (ascii ''Symbol'') (replicate (length (rows f)) (Text s))"
  have c1: "columns ?tagged = columns f @ [ascii ''Symbol'']"
    using assms by (simp add: setitem_def)
  have "rows ?tagged = map2 (\<lambda>(i, cs) v. (i, put (columns f) (ascii ''Symbol'') v cs)) (rows f)
                         (replicate (length (rows f)) (Text s))"
    by (simp add: setitem_def)
  also have "\<dots> = map (\<lambda>r. (\<lambda>(i, cs) v. (i, put (columns f) (ascii ''Symbol'') v cs)) r (Text s)) (rows f)"
    by (rule map2_replicate)
  also have "\<dots> = map (\<lambda>r. (fst r, snd r @ [Text s])) (rows f)"
    using assms by (simp add: put_def case_prod_unfold)
  finally have r1: "rows ?tagged = map (\<lambda>r. (fst r, snd r @ [Text s])) (rows f)" .
  have notin: "ascii ''Date'' \<notin> set (columns ?tagged)"
    using assms c1 by simp
  show "columns (tag_stock s f) = columns f @ [ascii ''Symbol'', ascii ''Date'']"
    using c1 notin by (simp add: tag_stock_def Let_def setitem_def [of ?tagged])
  have "rows (tag_stock s f) = map2 (\<lambda>(i, cs) v. (i, put (columns ?tagged) (ascii ''Date'') v cs)) (rows ?tagged) (map fst (rows ?tagged))"
    by (simp add: tag_stock_def Let_def setitem_def [of ?tagged])
  also have "\<dots> = map (\<lambda>r. (\<lambda>(i, cs) v. (i, put (columns ?tagged) (ascii ''Date'') v cs)) r (fst r)) (rows ?tagged)"
    by (rule map2_map_same)
  also have "\<dots> = map (\<lambda>r. (fst r, snd r @ [fst r])) (rows ?tagged)"
    using notin by (simp add: put_def case_prod_unfold)
  also have "\<dots> = map (\<lambda>r. (fst r, snd r @ [Text s, fst r])) (rows f)"
    by (simp add: r1 o_def)
  finally show "rows (tag_stock s f) = map (\<lambda>r. (fst r, snd r @ [Text s, fst r])) (rows f)" .
qed

lemma concat_frames_same:
  assumes "columns a = cols" "columns b = cols" "distinct cols"
    "\<forall>r\<in>set (rows a). length (snd r) = length cols"
    "\<forall>r\<in>set (rows b). length (snd r) = length cols"
  shows "concat_frames a b = \<lparr>index_name = None, columns = cols,
           rows = range_index (unify (map snd (rows a) @ map snd (rows b)))\<rparr>"
  using assms by (simp add: concat_frames_def Let_def reindex_same cong: map_cong)

lemma concat_frames_empty:
  assumes "distinct (columns b)" "\<forall>r\<in>set (rows b). length (snd r) = length (columns b)"
  shows "concat_frames empty_frame b = \<lparr>index_name = None, columns = columns b,
           rows = range_index (unify (map snd (rows b)))\<rparr>"
  using assms by (simp add: concat_frames_def empty_frame_def Let_def reindex_same cong: map_cong)

lemma shape_loop_rows:
  assumes "distinct cols" "ascii ''Symbol'' \<notin> set cols" "ascii ''Date'' \<notin> set cols"
  shows "fetched_with cols raw_data symbols \<Longrightarrow> columns df = cols @ [ascii ''Symbol'', ascii ''Date''] \<Longrightarrow>
     map snd (rows df) = unify table \<Longrightarrow> \<forall>r\<in>set table. length r = length cols + 2 \<Longrightarrow>
     \<forall>j<length cols + 2. \<not> mixed (column_of j (table @ spec_rows raw_data symbols)) \<Longrightarrow>
     \<exists>df'. shape_loop raw_data df symbols = Inr df'
        \<and> columns df' = cols @ [ascii ''Symbol'', ascii ''Date'']
        \<and> map snd (rows df') = unify (table @ spec_rows raw_data symbols)"
proof (induction symbols arbitrary: df table)
  case Nil
  then show ?case by (simp add: spec_rows_def)
next
  case (Cons s symbols)
  from Cons.prems(1) obtain f where f: "raw_data s = Some f" "columns f = cols"
      "\<forall>r\<in>set (rows f). length (snd r) = length cols"
    and rest: "fetched_with cols raw_data symbols"
    by (auto simp: fetched_with_def list_all_iff split: option.splits)
  let ?t = "tag_stock s f"
  let ?new = "map (\<lambda>r. snd r @ [Text s, fst r]) (rows f)"
  have spec: "spec_rows raw_data (s # symbols) = ?new @ spec_rows raw_data symbols"
    using f(1) by (simp add: spec_rows_def)
  have tc: "columns ?t = cols @ [ascii ''Symbol'', ascii ''Date'']"
    using tag_stock_rows(1) [of f s] f assms by simp
  have tr: "rows ?t = map (\<lambda>r. (fst r, snd r @ [Text s, fst r])) (rows f)"
    using tag_stock_rows(2) [of f s] f assms by simp
  have dist: "distinct (cols @ [ascii ''Symbol'', ascii ''Date''])"
    using assms by simp
  have dl: "\<forall>r\<in>set (rows df). length (snd r) = length (cols @ [ascii ''Symbol'', ascii ''Date''])"
  proof
    fix r assume "r \<in> set (rows df)"
    then have "snd r \<in> set (unify table)"
      using Cons.prems(3) by (metis image_eqI list.set_map)
    then obtain r' where "r' \<in> set table" "length (snd r) = length r'"
      using length_unify_row by blast
    with Cons.prems(4) show "length (snd r) = length (cols @ [ascii ''Symbol'', ascii ''Date''])"
      by simp
  qed
  have tl: "\<forall>r\<in>set (rows ?t). length (snd r) = length (cols @ [ascii ''Symbol'', ascii ''Date''])"
    using f(3) by (simp add: tr)
  have cf: "concat_frames df ?t = \<lparr>index_name = None, columns = cols @ [ascii ''Symbol'', ascii ''Date''],
              rows = range_index (unify (map snd (rows df) @ map snd (rows ?t)))\<rparr>"
    using Cons.prems(2) tc dist dl tl by (rule concat_frames_same)
  let ?df = "concat_frames df ?t"
  have c: "columns ?df = cols @ [ascii ''Symbol'', ascii ''Date'']"
    by (simp add: cf)
  have nm: "\<forall>r\<in>set table. \<forall>j<length r. \<not> mixed (column_of j (table @ ?new))"
  proof (intro ballI allI impI)
    fix r j assume "r \<in> set table" "j < length r"
    with Cons.prems(4) have "j < length cols + 2" by simp
    with Cons.prems(5) have "\<not> mixed (column_of j (table @ spec_rows raw_data (s # symbols)))"
      by blast
    then have "\<not> mixed (column_of j ((table @ ?new) @ spec_rows raw_data symbols))"
      by (simp add: spec)
    then show "\<not> mixed (column_of j (table @ ?new))"
      using mixed_append by blast
  qed
  have "map snd (rows ?df) = unify (unify table @ ?new)"
    by (simp add: cf map_snd_range_index tr o_def Cons.prems(3))
  also have "\<dots> = unify (table @ ?new)"
    using nm by (rule unify_unify_append)
  finally have d: "map snd (rows ?df) = unify (table @ ?new)" .
  have l: "\<forall>r\<in>set (table @ ?new). length r = length cols + 2"
    using Cons.prems(4) f(3) by auto
  have m: "\<forall>j<length cols + 2. \<not> mixed (column_of j ((table @ ?new) @ spec_rows raw_data symbols))"
    using Cons.prems(5) by (simp add: spec)
  from Cons.IH [OF rest c d l m] obtain df' where
    "shape_loop raw_data ?df symbols = Inr df'" "columns df' = cols @ [ascii ''Symbol'', ascii ''Date'']"
    "map snd (rows df') = unify ((table @ ?new) @ spec_rows raw_data symbols)"
    by blast
  then show ?case
    using f(1) by (simp add: spec)
qed

lemma shape_multi_spec_rows:
  assumes "distinct cols" "ascii ''Symbol'' \<notin> set cols" "ascii ''Date'' \<notin> set cols"
    "fetched_with cols raw_data symbols" "symbols \<noteq> []"
    "\<forall>j<length cols + 2. \<not> mixed (column_of j (spec_rows raw_data symbols))"
  shows "\<exists>df. shape_multi raw_data symbols = Inr df
        \<and> columns df = cols @ [ascii ''Symbol'', ascii ''Date'']
        \<and> map snd (rows df) = unify (spec_rows raw_data symbols)"
proof -
  from assms(5) obtain s rest where symbols: "symbols = s # rest"
    by (cases symbols) simp_all
  from assms(4) symbols obtain f where f: "raw_data s = Some f" "columns f = cols"
      "\<forall>r\<in>set (rows f). length (snd r) = length cols"
    and rest: "fetched_with cols raw_data rest"
    by (auto simp: fetched_with_def list_all_iff split: option.splits)
  let ?t = "tag_stock s f"
  let ?new = "map (\<lambda>r. snd r @ [Text s, fst r]) (rows f)"
  have spec: "spec_rows raw_data symbols = ?new @ spec_rows raw_data rest"
    using f(1) symbols by (simp add: spec_rows_def)
  have tc: "columns ?t = cols @ [ascii ''Symbol'', ascii ''Date'']"
    using tag_stock_rows(1) [of f s] f assms by simp
  have tr: "rows ?t = map (\<lambda>r. (fst r, snd r @ [Text s, fst r])) (rows f)"
    using tag_stock_rows(2) [of f s] f assms by simp
  have cf: "concat_frames empty_frame ?t = \<lparr>index_name = None, columns = cols @ [ascii ''Symbol'', ascii ''Date''],
              rows = range_index (unify (map snd (rows ?t)))\<rparr>"
    using concat_frames_empty [of ?t] tc tr f(3) assms(1-3) by auto
  let ?df = "concat_frames empty_frame ?t"
  have c: "columns ?df = cols @ [ascii ''Symbol'', ascii ''Date'']"
    by (simp add: cf)
  have d: "map snd (rows ?df) = unify ?new"
    by (simp add: cf map_snd_range_index tr o_def)
  have l: "\<forall>r\<in>set ?new. length r = length cols + 2"
    using f(3) by auto
  have m: "\<forall>j<length cols + 2. \<not> mixed (column_of j (?new @ spec_rows raw_data rest))"
    using assms(6) by (simp only: spec)
  from shape_loop_rows [OF assms(1-3) rest c d l m] obtain df where
    "shape_loop raw_data ?df rest = Inr df" "columns df = cols @ [ascii ''Symbol'', ascii ''Date'']"
    "map snd (rows df) = unify (?new @ spec_rows raw_data rest)"
    by blast
  then show ?thesis
    using f(1) symbols by (simp add: shape_multi_def spec_rows_def)
qed

lemma columns_concat_frames:
  "columns (concat_frames a b) = columns a @ filter (\<lambda>c. c \<notin> set (columns a)) (columns b)"
  by (simp add: concat_frames_def Let_def)

lemma shape_loop_columns:
  assumes "ascii ''Symbol'' \<notin> set cols" "ascii ''Date'' \<notin> set cols"
  shows "fetched_with cols raw_data symbols \<Longrightarrow> columns df = cols @ [ascii ''Symbol'', ascii ''Date''] \<Longrightarrow>
     \<exists>df'. shape_loop raw_data df symbols = Inr df' \<and> columns df' = cols @ [ascii ''Symbol'', ascii ''Date'']"
proof (induction symbols arbitrary: df)
  case Nil
  then show ?case by simp
next
  case (Cons s symbols)
  from Cons.prems(1) obtain f where f: "raw_data s = Some f" "columns f = cols"
    and rest: "fetched_with cols raw_data symbols"
    by (auto simp: fetched_with_def split: option.splits)
  have "columns (tag_stock s f) = cols @ [ascii ''Symbol'', ascii ''Date'']"
    using tag_stock_rows(1) [of f s] f assms by simp
  then have "columns (concat_frames df (tag_stock s f)) = cols @ [ascii ''Symbol'', ascii ''Date'']"
    using Cons.prems(2) by (simp add: columns_concat_frames)
  from Cons.IH [OF rest this] show ?case
    using f(1) by simp
qed

lemma shape_multi_columns:
  assumes "ascii ''Symbol'' \<notin> set cols" "ascii ''Date'' \<notin> set cols"
    "fetched_with cols raw_data symbols" "symbols \<noteq> []"
  shows "\<exists>df. shape_multi raw_data symbols = Inr df \<and> columns df = cols @ [ascii ''Symbol'', ascii ''Date'']"
proof -
  from assms(4) obtain s rest where symbols: "symbols = s # rest"
    by (cases symbols) simp_all
  from assms(3) symbols obtain f where f: "raw_data s = Some f" "columns f = cols"
    and rest: "fetched_with cols raw_data rest"
    by (auto simp: fetched_with_def split: option.splits)
  have "columns (tag_stock s f) = cols @ [ascii ''Symbol'', ascii ''Date'']"
    using tag_stock_rows(1) [of f s] f assms by simp
  then have "columns (concat_frames empty_frame (tag_stock s f)) = cols @ [ascii ''Symbol'', ascii ''Date'']"
    by (simp add: columns_concat_frames empty_frame_def)
  from shape_loop_columns [OF assms(1,2) rest this] show ?thesis
    using f(1) symbols by (simp add: shape_multi_def)
qed

lemma fetched_absent: "fetched_with cols raw_data symbols \<Longrightarrow> absent raw_data symbols = []"
  by (auto simp: absent_def fetched_with_def list_all_iff filter_empty_conv split: option.splits)

lemma spec_symbol_column:
  "fetched_with cols raw_data symbols \<Longrightarrow>
   map (\<lambda>r. r ! length cols) (spec_rows raw_data symbols)
     = concat (map (\<lambda>s. replicate (length (rows (the (raw_data s)))) (Text s)) symbols)"
proof (induction symbols)
  case Nil
  show ?case by (simp add: spec_rows_def)
next
  case (Cons s symbols)
  from Cons.prems obtain f where f: "raw_data s = Some f"
      "\<forall>r\<in>set (rows f). length (snd r) = length cols"
    and rest: "fetched_with cols raw_data symbols"
    by (auto simp: fetched_with_def list_all_iff split: option.splits)
  have "map (\<lambda>r. r ! length cols) (map (\<lambda>r. snd r @ [Text s, fst r]) (rows f))
      = replicate (length (rows f)) (Text s)"
    using f(2) by (simp add: map_replicate_const [symmetric] nth_append cong: map_cong)
  moreover have "spec_rows raw_data (s # symbols)
      = map (\<lambda>r. snd r @ [Text s, fst r]) (rows f) @ spec_rows raw_data symbols"
    using f(1) by (simp add: spec_rows_def)
  ultimately show ?case
    using Cons.IH [OF rest] f(1) by simp
qed

lemma spec_rows_length:
  "fetched_with cols raw_data symbols \<Longrightarrow> r \<in> set (spec_rows raw_data symbols) \<Longrightarrow>
   length r = length cols + 2"
  by (induction symbols) (auto simp: spec_rows_def fetched_with_def list_all_iff split: option.splits)

lemma spec_symbol_text:
  "fetched_with cols raw_data symbols \<Longrightarrow> r \<in> set (spec_rows raw_data symbols) \<Longrightarrow>
   is_text (r ! length cols)"
  by (induction symbols)
    (auto simp: spec_rows_def fetched_with_def list_all_iff nth_append split: option.splits)

lemma symbol_column_kept:
  assumes "fetched_with cols raw_data symbols"
  shows "map (\<lambda>r. r ! length cols) (unify (spec_rows raw_data symbols))
      = map (\<lambda>r. r ! length cols) (spec_rows raw_data symbols)"
proof -
  let ?T = "spec_rows raw_data symbols"
  have "\<not> list_ex is_float64 (column_of (length cols) ?T)"
  proof
    assume "list_ex is_float64 (column_of (length cols) ?T)"
    then obtain r where r: "r \<in> set ?T" "is_float64 (cell_at r (length cols))"
      by (auto simp: list_ex_iff column_of_def)
    from spec_rows_length [OF assms r(1)] have "cell_at r (length cols) = r ! length cols"
      by (simp add: cell_at_def)
    moreover from spec_symbol_text [OF assms r(1)] have "is_text (r ! length cols)" .
    ultimately show False
      using r(2) by (cases "r ! length cols") simp_all
  qed
  then have nf: "\<not> float_column (column_of (length cols) ?T)"
    by (simp add: float_column_def)
  have "\<And>r. r \<in> set ?T \<Longrightarrow>
      map (\<lambda>j. if float_column (column_of j ?T) then upcast (r ! j) else r ! j) [0..<length r] ! length cols
        = r ! length cols"
  proof -
    fix r assume "r \<in> set ?T"
    then have "length cols < length r - 0"
      using spec_rows_length [OF assms] by simp
    then have "map (\<lambda>j. if float_column (column_of j ?T) then upcast (r ! j) else r ! j) [0..<length r] ! length cols
        = (if float_column (column_of (0 + length cols) ?T) then upcast (r ! (0 + length cols)) else r ! (0 + length cols))"
      by (rule nth_map_upt)
    then show "map (\<lambda>j. if float_column (column_of j ?T) then upcast (r ! j) else r ! j) [0..<length r] ! length cols
        = r ! length cols"
      using nf by simp
  qed
  then have "map (\<lambda>r. map (\<lambda>j. if float_column (column_of j ?T) then upcast (r ! j) else r ! j) [0..<length r] ! length cols) ?T
      = map (\<lambda>r. r ! length cols) ?T"
    by (rule map_cong [OF refl])
  then show ?thesis
    by (simp only: unify_rows [of ?T] map_map o_def)
qed

lemma fl_1000: "fl 1000 = 1000"
  using fl_of_int [of 1000] by simp

lemma fl_900: "fl 900 = 900"
  using fl_of_int [of 900] by simp

subsection \<open>Several symbols: a symbol without data\<close>

text \<open>
  C1, as stated, fails: for the symbols AAPL and ZZZZ and fetched data that has only
  AAPL, the lookup of ZZZZ raises KeyError, the run ends there, and no table is shown.
\<close>

theorem absent_symbol_raises:
  "multi_view sample_fmt [ascii ''AAPL'', ascii ''ZZZZ''] [ascii ''AAPL'' \<mapsto> aapl]
     = [Uncaught (KeyError (ascii ''ZZZZ''))]"
proof -
  have "absent [ascii ''AAPL'' \<mapsto> aapl] [ascii ''AAPL'', ascii ''ZZZZ''] = [ascii ''ZZZZ'']"
    by (simp add: absent_def)
  then have "shape_multi [ascii ''AAPL'' \<mapsto> aapl] [ascii ''AAPL'', ascii ''ZZZZ''] = Inl (KeyError (ascii ''ZZZZ''))"
    by (simp add: shape_multi_def shape_loop_absent)
  then show ?thesis
    by (simp add: multi_view_def raising_def)
qed

text \<open>
  C1, amended. The loop completes exactly when the fetched data has every requested
  symbol, and the table then has as many rows as the frames of the requested symbols
  together. When a requested symbol is absent from the fetched data, the loop raises
  KeyError for the first such symbol and gives no table.
\<close>

theorem shape_multi_lookup:
  "(absent raw_data symbols = [] \<longrightarrow>
      (\<exists>df. shape_multi raw_data symbols = Inr df
         \<and> length (rows df) = (\<Sum>s\<leftarrow>symbols. length (rows (the (raw_data s))))))
   \<and> (absent raw_data symbols \<noteq> [] \<longrightarrow>
      shape_multi raw_data symbols = Inl (KeyError (hd (absent raw_data symbols))))"
proof (intro conjI impI)
  assume "absent raw_data symbols = []"
  from shape_loop_present [OF this, of empty_frame]
  show "\<exists>df. shape_multi raw_data symbols = Inr df
         \<and> length (rows df) = (\<Sum>s\<leftarrow>symbols. length (rows (the (raw_data s))))"
    by (simp add: shape_multi_def empty_frame_def)
next
  assume "absent raw_data symbols \<noteq> []"
  then obtain s ss where "absent raw_data symbols = s # ss"
    by (cases "absent raw_data symbols") simp_all
  then show "shape_multi raw_data symbols = Inl (KeyError (hd (absent raw_data symbols)))"
    by (simp add: shape_multi_def shape_loop_absent)
qed

theorem shape_multi_lookup_witness:
  "absent [ascii ''AAPL'' \<mapsto> aapl, ascii ''MSFT'' \<mapsto> msft] [ascii ''AAPL'', ascii ''MSFT''] = []
   \<and> (\<exists>df. shape_multi [ascii ''AAPL'' \<mapsto> aapl, ascii ''MSFT'' \<mapsto> msft] [ascii ''AAPL'', ascii ''MSFT''] = Inr df
          \<and> length (rows df) = 3)
   \<and> absent [ascii ''AAPL'' \<mapsto> aapl] [ascii ''AAPL'', ascii ''ZZZZ''] \<noteq> []
   \<and> shape_multi [ascii ''AAPL'' \<mapsto> aapl] [ascii ''AAPL'', ascii ''ZZZZ''] = Inl (KeyError (ascii ''ZZZZ''))"
  using shape_multi_lookup [of "[ascii ''AAPL'' \<mapsto> aapl, ascii ''MSFT'' \<mapsto> msft]" "[ascii ''AAPL'', ascii ''MSFT'']"]
    shape_multi_lookup [of "[ascii ''AAPL'' \<mapsto> aapl]" "[ascii ''AAPL'', ascii ''ZZZZ'']"]
    length_rows_aapl length_rows_msft
  by (simp add: absent_def)

subsection \<open>Several symbols: the rows of the table\<close>

text \<open>
  C5, as stated, fails on a request with a symbol that the fetched data does not have:
  for the symbols ZZZZ and MSFT and data that has only MSFT, the claim gives the table
  the one row of MSFT, and the loop raises KeyError and gives no table.
\<close>

theorem absent_symbol_no_rows:
  "shape_multi [ascii ''MSFT'' \<mapsto> msft] [ascii ''ZZZZ'', ascii ''MSFT''] = Inl (KeyError (ascii ''ZZZZ''))
   \<and> length (spec_rows [ascii ''MSFT'' \<mapsto> msft] [ascii ''ZZZZ'', ascii ''MSFT'']) = 1"
proof -
  have "absent [ascii ''MSFT'' \<mapsto> msft] [ascii ''ZZZZ'', ascii ''MSFT''] = [ascii ''ZZZZ'']"
    by (simp add: absent_def)
  then have "shape_multi [ascii ''MSFT'' \<mapsto> msft] [ascii ''ZZZZ'', ascii ''MSFT''] = Inl (KeyError (ascii ''ZZZZ''))"
    by (simp add: shape_multi_def shape_loop_absent)
  then show ?thesis
    by (simp add: spec_rows_def msft_def)
qed

text \<open>
  C5, amended. Take a request for which the fetched data has a frame for every
  requested symbol, the frames having the same columns, which are distinct and are not
  Symbol or Date, and one cell per column in every row; and in which no column of the
  combined rows holds an integer, a \<^verbatim>\<open>float64\<close> and a cell that is no number at
  once. Then the table has these columns, then Symbol, then Date, and as many rows as
  the frames of the requested symbols have together. Its rows are the rows of the
  frames, each followed by its symbol and its date, the symbols in request order and
  the rows of a symbol in the order of its frame, none added and none dropped; in a
  column of numbers that holds a \<^verbatim>\<open>float64\<close>, the integers are converted to
  \<^verbatim>\<open>float64\<close>, and every other cell is the cell of the frame. The column Symbol is,
  for each symbol in request order, the symbol once for each row of its frame. When a
  requested symbol is absent from the fetched data, the loop raises KeyError for the
  first such symbol and gives no table.
\<close>

theorem shape_multi_grouped:
  "(fetched_with cols raw_data symbols \<and> symbols \<noteq> [] \<and> distinct cols
      \<and> ascii ''Symbol'' \<notin> set cols \<and> ascii ''Date'' \<notin> set cols
      \<and> (\<forall>j<length cols + 2. \<not> mixed (column_of j (spec_rows raw_data symbols)))
     \<longrightarrow> (\<exists>df. shape_multi raw_data symbols = Inr df
           \<and> columns df = cols @ [ascii ''Symbol'', ascii ''Date'']
           \<and> length (rows df) = (\<Sum>s\<leftarrow>symbols. length (rows (the (raw_data s))))
           \<and> map snd (rows df)
               = map (\<lambda>r. map (\<lambda>j. if float_column (column_of j (spec_rows raw_data symbols))
                                   then upcast (r ! j) else r ! j) [0..<length r])
                   (spec_rows raw_data symbols)
           \<and> map (\<lambda>r. snd r ! length cols) (rows df)
               = concat (map (\<lambda>s. replicate (length (rows (the (raw_data s)))) (Text s)) symbols)))
   \<and> (absent raw_data symbols \<noteq> [] \<longrightarrow>
        shape_multi raw_data symbols = Inl (KeyError (hd (absent raw_data symbols))))"
proof (intro conjI impI)
  assume a: "fetched_with cols raw_data symbols \<and> symbols \<noteq> [] \<and> distinct cols
      \<and> ascii ''Symbol'' \<notin> set cols \<and> ascii ''Date'' \<notin> set cols
      \<and> (\<forall>j<length cols + 2. \<not> mixed (column_of j (spec_rows raw_data symbols)))"
  then have h: "distinct cols" "ascii ''Symbol'' \<notin> set cols" "ascii ''Date'' \<notin> set cols"
    "fetched_with cols raw_data symbols" "symbols \<noteq> []"
    "\<forall>j<length cols + 2. \<not> mixed (column_of j (spec_rows raw_data symbols))"
    by simp_all
  from shape_multi_spec_rows [OF h] obtain df where df:
    "shape_multi raw_data symbols = Inr df" "columns df = cols @ [ascii ''Symbol'', ascii ''Date'']"
    "map snd (rows df) = unify (spec_rows raw_data symbols)"
    by blast
  from shape_loop_present [OF fetched_absent [OF h(4)], of empty_frame] df(1)
  have n: "length (rows df) = (\<Sum>s\<leftarrow>symbols. length (rows (the (raw_data s))))"
    by (simp add: shape_multi_def empty_frame_def)
  have r: "map snd (rows df)
      = map (\<lambda>r. map (\<lambda>j. if float_column (column_of j (spec_rows raw_data symbols))
                          then upcast (r ! j) else r ! j) [0..<length r])
          (spec_rows raw_data symbols)"
    by (simp only: df(3) unify_rows)
  have "map (\<lambda>r. snd r ! length cols) (rows df) = map (\<lambda>r. r ! length cols) (map snd (rows df))"
    by (simp add: o_def)
  also have "\<dots> = map (\<lambda>r. r ! length cols) (spec_rows raw_data symbols)"
    by (simp only: df(3) symbol_column_kept [OF h(4)])
  also have "\<dots> = concat (map (\<lambda>s. replicate (length (rows (the (raw_data s)))) (Text s)) symbols)"
    by (rule spec_symbol_column [OF h(4)])
  finally have s: "map (\<lambda>r. snd r ! length cols) (rows df)
      = concat (map (\<lambda>s. replicate (length (rows (the (raw_data s)))) (Text s)) symbols)" .
  from df(1,2) n r s
  show "\<exists>df. shape_multi raw_data symbols = Inr df
           \<and> columns df = cols @ [ascii ''Symbol'', ascii ''Date'']
           \<and> length (rows df) = (\<Sum>s\<leftarrow>symbols. length (rows (the (raw_data s))))
           \<and> map snd (rows df)
               = map (\<lambda>r. map (\<lambda>j. if float_column (column_of j (spec_rows raw_data symbols))
                                   then upcast (r ! j) else r ! j) [0..<length r])
                   (spec_rows raw_data symbols)
           \<and> map (\<lambda>r. snd r ! length cols) (rows df)
               = concat (map (\<lambda>s. replicate (length (rows (the (raw_data s)))) (Text s)) symbols)"
    by blast
next
  assume "absent raw_data symbols \<noteq> []"
  then obtain s ss where "absent raw_data symbols = s # ss"
    by (cases "absent raw_data symbols") simp_all
  then show "shape_multi raw_data symbols = Inl (KeyError (hd (absent raw_data symbols)))"
    by (simp add: shape_multi_def shape_loop_absent)
qed

lemma spec_rows_sample:
  "spec_rows [ascii ''AAPL'' \<mapsto> aapl, ascii ''TSLA'' \<mapsto> tsla] [ascii ''AAPL'', ascii ''TSLA'']
     = [[Float64 (Some 125), Float64 (Some 131), Float64 (Some 124), Float64 (Some 125), Int64 1000,
         Text (ascii ''AAPL''), Timestamp 19360],
        [Float64 (Some 126), Float64 (Some 129), Float64 (Some 125), Float64 (Some 127), Int64 900,
         Text (ascii ''AAPL''), Timestamp 19361],
        [Float64 (Some 110), Float64 (Some 115), Float64 (Some 108), Float64 (Some 113), Float64 None,
         Text (ascii ''TSLA''), Timestamp 19360]]"
  by (simp add: spec_rows_def aapl_def tsla_def)

lemma columns_sample:
  "map (\<lambda>j. column_of j (spec_rows [ascii ''AAPL'' \<mapsto> aapl, ascii ''TSLA'' \<mapsto> tsla] [ascii ''AAPL'', ascii ''TSLA''])) [0, 1, 2, 3, 4, 5, 6]
   = [[Float64 (Some 125), Float64 (Some 126), Float64 (Some 110)],
      [Float64 (Some 131), Float64 (Some 129), Float64 (Some 115)],
      [Float64 (Some 124), Float64 (Some 125), Float64 (Some 108)],
      [Float64 (Some 125), Float64 (Some 127), Float64 (Some 113)],
      [Int64 1000, Int64 900, Float64 None],
      [Text (ascii ''AAPL''), Text (ascii ''AAPL''), Text (ascii ''TSLA'')],
      [Timestamp 19360, Timestamp 19361, Timestamp 19360]]"
  by (simp add: spec_rows_sample column_of_def cell_at_def)

lemma sample_not_mixed:
  "j < 7 \<Longrightarrow> \<not> mixed (column_of j (spec_rows [ascii ''AAPL'' \<mapsto> aapl, ascii ''TSLA'' \<mapsto> tsla] [ascii ''AAPL'', ascii ''TSLA'']))"
proof -
  assume "j < 7"
  then have "j \<in> {0, 1, 2, 3, 4, 5, 6}" by auto
  then have "column_of j (spec_rows [ascii ''AAPL'' \<mapsto> aapl, ascii ''TSLA'' \<mapsto> tsla] [ascii ''AAPL'', ascii ''TSLA''])
     \<in> set (map (\<lambda>j. column_of j (spec_rows [ascii ''AAPL'' \<mapsto> aapl, ascii ''TSLA'' \<mapsto> tsla] [ascii ''AAPL'', ascii ''TSLA''])) [0, 1, 2, 3, 4, 5, 6])"
    by (simp only: set_map set_simps) (rule imageI)
  then show ?thesis
    unfolding columns_sample by (auto simp: mixed_def)
qed

lemma sample_unified:
  "map (\<lambda>r. map (\<lambda>j. if float_column (column_of j (spec_rows [ascii ''AAPL'' \<mapsto> aapl, ascii ''TSLA'' \<mapsto> tsla] [ascii ''AAPL'', ascii ''TSLA'']))
                          then upcast (r ! j) else r ! j) [0..<length r]) (spec_rows [ascii ''AAPL'' \<mapsto> aapl, ascii ''TSLA'' \<mapsto> tsla] [ascii ''AAPL'', ascii ''TSLA''])
      = [[Float64 (Some 125), Float64 (Some 131), Float64 (Some 124), Float64 (Some 125),
          Float64 (Some 1000), Text (ascii ''AAPL''), Timestamp 19360],
         [Float64 (Some 126), Float64 (Some 129), Float64 (Some 125), Float64 (Some 127),
          Float64 (Some 900), Text (ascii ''AAPL''), Timestamp 19361],
         [Float64 (Some 110), Float64 (Some 115), Float64 (Some 108), Float64 (Some 113),
          Float64 None, Text (ascii ''TSLA''), Timestamp 19360]]"
  unfolding spec_rows_sample
  by (simp add: float_column_def column_of_def cell_at_def fl_1000 fl_900)

theorem shape_multi_grouped_witness:
  "fetched_with ohlcv [ascii ''AAPL'' \<mapsto> aapl, ascii ''TSLA'' \<mapsto> tsla] [ascii ''AAPL'', ascii ''TSLA'']
   \<and> distinct ohlcv \<and> ascii ''Symbol'' \<notin> set ohlcv \<and> ascii ''Date'' \<notin> set ohlcv
   \<and> (\<exists>df. shape_multi [ascii ''AAPL'' \<mapsto> aapl, ascii ''TSLA'' \<mapsto> tsla] [ascii ''AAPL'', ascii ''TSLA''] = Inr df
        \<and> columns df = ohlcv @ [ascii ''Symbol'', ascii ''Date'']
        \<and> length (rows df) = 3
        \<and> map snd (rows df)
            = [[Float64 (Some 125), Float64 (Some 131), Float64 (Some 124), Float64 (Some 125),
                Float64 (Some 1000), Text (ascii ''AAPL''), Timestamp 19360],
               [Float64 (Some 126), Float64 (Some 129), Float64 (Some 125), Float64 (Some 127),
                Float64 (Some 900), Text (ascii ''AAPL''), Timestamp 19361],
               [Float64 (Some 110), Float64 (Some 115), Float64 (Some 108), Float64 (Some 113),
                Float64 None, Text (ascii ''TSLA''), Timestamp 19360]]
        \<and> map (\<lambda>r. snd r ! 5) (rows df) = [Text (ascii ''AAPL''), Text (ascii ''AAPL''), Text (ascii ''TSLA'')])
   \<and> absent [ascii ''MSFT'' \<mapsto> msft] [ascii ''ZZZZ'', ascii ''MSFT''] \<noteq> []
   \<and> shape_multi [ascii ''MSFT'' \<mapsto> msft] [ascii ''ZZZZ'', ascii ''MSFT''] = Inl (KeyError (ascii ''ZZZZ''))"
proof -
  let ?raw = "[ascii ''AAPL'' \<mapsto> aapl, ascii ''TSLA'' \<mapsto> tsla]"
  let ?symbols = "[ascii ''AAPL'', ascii ''TSLA'']"
  have f: "fetched_with ohlcv ?raw ?symbols"
    by (simp add: fetched_with_def aapl_def tsla_def ohlcv_def)
  have o: "distinct ohlcv" "ascii ''Symbol'' \<notin> set ohlcv" "ascii ''Date'' \<notin> set ohlcv"
    by (simp_all add: ohlcv_def)
  have l: "length ohlcv = 5"
    by (simp add: ohlcv_def)
  have m: "\<forall>j<length ohlcv + 2. \<not> mixed (column_of j (spec_rows ?raw ?symbols))"
    using sample_not_mixed by (simp add: l)
  have a: "absent [ascii ''MSFT'' \<mapsto> msft] [ascii ''ZZZZ'', ascii ''MSFT''] = [ascii ''ZZZZ'']"
    by (simp add: absent_def)
  have c: "concat (map (\<lambda>s. replicate (length (rows (the (?raw s)))) (Text s)) ?symbols)
      = [Text (ascii ''AAPL''), Text (ascii ''AAPL''), Text (ascii ''TSLA'')]"
    by (simp add: length_rows_aapl length_rows_tsla numeral_2_eq_2)
  have n: "(\<Sum>s\<leftarrow>?symbols. length (rows (the (?raw s)))) = 3"
    by (simp add: length_rows_aapl length_rows_tsla)
  from shape_multi_grouped [of ohlcv ?raw ?symbols] f o m
  have "\<exists>df. shape_multi ?raw ?symbols = Inr df
           \<and> columns df = ohlcv @ [ascii ''Symbol'', ascii ''Date'']
           \<and> length (rows df) = (\<Sum>s\<leftarrow>?symbols. length (rows (the (?raw s))))
           \<and> map snd (rows df)
               = map (\<lambda>r. map (\<lambda>j. if float_column (column_of j (spec_rows ?raw ?symbols))
                                   then upcast (r ! j) else r ! j) [0..<length r])
                   (spec_rows ?raw ?symbols)
           \<and> map (\<lambda>r. snd r ! length ohlcv) (rows df)
               = concat (map (\<lambda>s. replicate (length (rows (the (?raw s)))) (Text s)) ?symbols)"
    by blast
  then have table: "\<exists>df. shape_multi ?raw ?symbols = Inr df
        \<and> columns df = ohlcv @ [ascii ''Symbol'', ascii ''Date'']
        \<and> length (rows df) = 3
        \<and> map snd (rows df)
            = [[Float64 (Some 125), Float64 (Some 131), Float64 (Some 124), Float64 (Some 125),
                Float64 (Some 1000), Text (ascii ''AAPL''), Timestamp 19360],
               [Float64 (Some 126), Float64 (Some 129), Float64 (Some 125), Float64 (Some 127),
                Float64 (Some 900), Text (ascii ''AAPL''), Timestamp 19361],
               [Float64 (Some 110), Float64 (Some 115), Float64 (Some 108), Float64 (Some 113),
                Float64 None, Text (ascii ''TSLA''), Timestamp 19360]]
        \<and> map (\<lambda>r. snd r ! 5) (rows df) = [Text (ascii ''AAPL''), Text (ascii ''AAPL''), Text (ascii ''TSLA'')]"
    by (simp only: sample_unified c n l)
  from shape_multi_grouped [of ohlcv "[ascii ''MSFT'' \<mapsto> msft]" "[ascii ''ZZZZ'', ascii ''MSFT'']"] a
  have k: "shape_multi [ascii ''MSFT'' \<mapsto> msft] [ascii ''ZZZZ'', ascii ''MSFT''] = Inl (KeyError (ascii ''ZZZZ''))"
    by simp
  have a': "absent [ascii ''MSFT'' \<mapsto> msft] [ascii ''ZZZZ'', ascii ''MSFT''] \<noteq> []"
    by (simp only: a) simp
  from f o table a' k show ?thesis
    by (intro conjI)
qed

subsection \<open>One symbol: the run on a frame of prices\<close>

lemma cell_at_Cons [simp]: "cell_at (c # cs) 0 = c" "cell_at (c # cs) (Suc k) = cell_at cs k"
  by (simp_all add: cell_at_def)

lemma shape_single_label:
  "index_label f \<notin> set (columns f) \<Longrightarrow> shape_single f = Inr (with_index f (index_label f))"
  by (simp add: shape_single_def reset_index_def with_index_def case_prod_unfold)

lemma shape_single_clash:
  "index_label f \<in> set (columns f) \<Longrightarrow> shape_single f = Inl (ValueError (index_label f))"
  by (simp add: shape_single_def reset_index_def)

lemma shape_single_named:
  "index_name f = Some name \<Longrightarrow> name \<notin> set (columns f) \<Longrightarrow> shape_single f = Inr (with_index f name)"
  using shape_single_label [of f] by (simp add: index_label_def)

lemma map_range_index: "map (\<lambda>r. g (snd r)) (range_index data) = map g data"
proof -
  have "map (\<lambda>r. g (snd r)) (range_index data) = map g (map snd (range_index data))"
    by (simp add: o_def)
  then show ?thesis
    by (simp only: map_snd_range_index)
qed

lemma getitem_with_index_name:
  "getitem (with_index f name) name = Inr (map fst (rows f))"
  using map_range_index [of "\<lambda>cs. cell_at cs 0" "map (\<lambda>r. fst r # snd r) (rows f)"]
  by (simp add: getitem_def with_index_def case_prod_unfold o_def)

lemma getitem_with_index_col:
  "c \<in> set (columns f) \<Longrightarrow> c \<noteq> name \<Longrightarrow> getitem (with_index f name) c = Inr (col f c)"
  using map_range_index [of "\<lambda>cs. cell_at cs (Suc (index_of (columns f) c))"
      "map (\<lambda>r. fst r # snd r) (rows f)"]
  by (simp add: getitem_def with_index_def case_prod_unfold o_def col_def)

lemma price_frame_numeric:
  assumes "price_frame f" "c \<in> set ohlcv"
  shows "list_all is_numeric (col f c)"
proof -
  have k: "index_of (columns f) c < 5"
    using assms by (auto simp: price_frame_def ohlcv_def)
  have "\<And>r. r \<in> set (rows f) \<Longrightarrow> is_numeric (cell_at (snd r) (index_of (columns f) c))"
  proof -
    fix r assume "r \<in> set (rows f)"
    then have r: "length (snd r) = 5" "list_all is_numeric (snd r)"
      using assms(1) by (auto simp: price_frame_def list_all_iff)
    then have "cell_at (snd r) (index_of (columns f) c) \<in> set (snd r)"
      using k by (simp add: cell_at_def)
    then show "is_numeric (cell_at (snd r) (index_of (columns f) c))"
      using r(2) by (simp add: list_all_iff)
  qed
  then show ?thesis
    by (simp add: col_def list_all_iff)
qed

lemma single_view_price_frame:
  assumes "price_frame f"
  shows "single_view fmt symbol ma f =
    [Subheader (128197 # ascii '' Raw Data Preview''),
     Dataframe (head (with_index f (ascii ''Date''))),
     Subheader ([128367, 65039, 32] @ symbol @ ascii '' Candlestick Chart''),
     PlotlyChart (Figure [Candlestick (map fst (rows f)) (col f (ascii ''Open'')) (col f (ascii ''High''))
                            (col f (ascii ''Low'')) (col f (ascii ''Close'')) symbol]
                    (symbol @ ascii '' Candlestick Chart'') (ascii ''Date'') (ascii ''Price (USD)'')),
     Subheader ([128200, 32] @ symbol @ ascii '' Closing Price''),
     PlotlyChart (Figure (Scatter (map fst (rows f)) (col f (ascii ''Close'')) (ascii ''Close'') False None #
                          (if ma
                           then [Scatter (map fst (rows f))
                                   (map Float64 (rolling_mean 7 (map to_float (col f (ascii ''Close'')))))
                                   (ascii ''7-Day MA'') True None]
                           else []))
                    (ascii ''Closing Price Trend'') (ascii ''Date'') (ascii ''Price (USD)'')),
     Subheader (128202 # ascii '' Volume Traded''),
     PlotlyChart (Figure [Bar (map fst (rows f)) (col f (ascii ''Volume'')) (ascii ''Volume'')]
                    (ascii ''Trading Volume'') (ascii ''Date'') (ascii ''Volume'')),
     DownloadButton (to_csv fmt (with_index f (ascii ''Date''))) (symbol @ ascii ''_stock_data.csv'')]"
proof -
  have idx: "index_name f = Some (ascii ''Date'')" and cols: "columns f = ohlcv"
    using assms by (simp_all add: price_frame_def)
  have s: "shape_single f = Inr (with_index f (ascii ''Date''))"
    using idx cols by (intro shape_single_named) (simp_all add: ohlcv_def)
  have g: "getitem (with_index f (ascii ''Date'')) (ascii ''Open'') = Inr (col f (ascii ''Open''))"
    "getitem (with_index f (ascii ''Date'')) (ascii ''High'') = Inr (col f (ascii ''High''))"
    "getitem (with_index f (ascii ''Date'')) (ascii ''Low'') = Inr (col f (ascii ''Low''))"
    "getitem (with_index f (ascii ''Date'')) (ascii ''Close'') = Inr (col f (ascii ''Close''))"
    "getitem (with_index f (ascii ''Date'')) (ascii ''Volume'') = Inr (col f (ascii ''Volume''))"
    using cols by (simp_all add: getitem_with_index_col ohlcv_def)
  have n: "rolling_mean_column 7 (col f (ascii ''Close''))
      = Inr (map Float64 (rolling_mean 7 (map to_float (col f (ascii ''Close'')))))"
    using price_frame_numeric [OF assms, of "ascii ''Close''"]
    by (simp add: rolling_mean_column_def ohlcv_def)
  show ?thesis
    by (simp add: single_view_def raising_def s g n getitem_with_index_name)
qed

lemma exports_single_view:
  "(data, file_name) \<in> set (exports (single_view fmt symbol ma f)) \<Longrightarrow>
   \<exists>df. shape_single f = Inr df \<and> data = to_csv fmt df \<and> file_name = symbol @ ascii ''_stock_data.csv''"
  by (auto simp: single_view_def raising_def split: sum.splits if_splits)

lemma exports_multi_view:
  "(data, file_name) \<in> set (exports (multi_view fmt symbols raw_data)) \<Longrightarrow>
   \<exists>df. shape_multi raw_data symbols = Inr df \<and> data = to_csv fmt df \<and> file_name = ascii ''multi_stock_data.csv''"
  by (auto simp: multi_view_def raising_def split: sum.splits if_splits)

subsection \<open>One symbol: the moving average\<close>











subsection \<open>Reading back what is written\<close>

lemma reader_quoted:
  "reader InQuotes cur row (escape f @ 34 # rest) = reader AfterQuote (rev f @ cur) row rest"
  by (induction f arbitrary: cur) (simp_all add: escape_def)

lemma reader_plain:
  "\<not> list_ex special f \<Longrightarrow> reader Plain cur row (f @ rest) = reader Plain (rev f @ cur) row rest"
  by (induction f arbitrary: cur) (simp_all add: special_def)

lemma reader_start_plain:
  "\<not> list_ex special f \<Longrightarrow> f \<noteq> [] \<Longrightarrow> reader Start cur row (f @ rest) = reader Plain (rev f) row rest"
  using reader_plain [of "tl f" "[hd f]" row rest]
  by (cases f) (simp_all add: special_def)

lemma reader_field_comma:
  "reader Start [] row (quote f @ 44 # rest) = reader Start [] (f # row) rest"
proof (cases "list_ex special f")
  case True
  then show ?thesis
    using reader_quoted [of "[]" row f "44 # rest"]
    by (simp add: quote_def escape_def)
next
  case False
  then show ?thesis
    using reader_start_plain [of f "[]" row "44 # rest"]
    by (cases "f = []") (simp_all add: quote_def)
qed

lemma reader_field_newline:
  "f \<noteq> [] \<or> row \<noteq> [] \<Longrightarrow>
   reader Start [] row (quote f @ 10 # rest) = rev (f # row) # reader Start [] [] rest"
proof (cases "list_ex special f")
  case True
  then show ?thesis
    using reader_quoted [of "[]" row f "10 # rest"]
    by (simp add: quote_def escape_def)
next
  case False
  assume "f \<noteq> [] \<or> row \<noteq> []"
  with False show ?thesis
    using reader_start_plain [of f "[]" row "10 # rest"]
    by (cases "f = []") (simp_all add: quote_def)
qed

lemma reader_fields:
  "texts \<noteq> [] \<Longrightarrow> texts \<noteq> [[]] \<or> row \<noteq> [] \<Longrightarrow>
   reader Start [] row (join 44 (map quote texts) @ 10 # rest)
     = (rev row @ texts) # reader Start [] [] rest"
proof (induction texts arbitrary: row)
  case Nil
  then show ?case by simp
next
  case (Cons t texts)
  show ?case
  proof (cases texts)
    case Nil
    then show ?thesis
      using Cons.prems reader_field_newline [of t row rest] by auto
  next
    case (Cons u us)
    then have "reader Start [] row (join 44 (map quote (t # texts)) @ 10 # rest)
        = reader Start [] (t # row) (join 44 (map quote texts) @ 10 # rest)"
      using reader_field_comma [of row t] by simp
    also have "\<dots> = (rev (t # row) @ texts) # reader Start [] [] rest"
      using Cons by (intro Cons.IH) simp_all
    finally show ?thesis by simp
  qed
qed

lemma reader_line:
  "reader Start [] [] (csv_line texts @ rest) = texts # reader Start [] [] rest"
proof (cases "texts = [] \<or> texts = [[]]")
  case True
  then show ?thesis
    by (auto simp: csv_line_def)
next
  case False
  then show ?thesis
    using reader_fields [of texts "[]" rest] by (simp add: csv_line_def)
qed

lemma reader_lines:
  "reader Start [] [] (concat (map csv_line table)) = table"
  by (induction table) (simp_all add: reader_line)

lemma to_csv_table_texts: "to_csv fmt df = concat (map csv_line (table_texts fmt df))"
  by (simp add: to_csv_def table_texts_def)

lemma parse_to_csv: "parse_csv (to_csv fmt df) = table_texts fmt df"
  by (simp only: parse_csv_def to_csv_table_texts reader_lines)

lemma read_field_render:
  assumes "kind_ok name c" "legible fmt rn rd c"
  shows "read_field rn rd name (render fmt c) = value_of c"
proof (cases c)
  case (Float64 v)
  with assms show ?thesis
    by (cases v) (auto simp: kind_ok_def legible_def read_field_def render_def split: if_splits)
next
  case (Int64 n)
  with assms show ?thesis
    by (auto simp: kind_ok_def legible_def read_field_def render_def split: if_splits)
next
  case (Text s)
  with assms show ?thesis
    by (auto simp: kind_ok_def legible_def read_field_def render_def split: if_splits)
next
  case (Timestamp d)
  with assms show ?thesis
    by (auto simp: kind_ok_def legible_def read_field_def render_def split: if_splits)
qed

lemma tuple_of_render:
  assumes "list_all (\<lambda>n. if n \<in> set header \<and> index_of header n < length cs
                          then kind_ok n (cs ! index_of header n) else True) tuple_columns"
    and "list_all (legible fmt rn rd) cs"
  shows "tuple_of (read_field rn rd) header (map (render fmt) cs) = tuple_of (\<lambda>n. value_of) header cs"
proof -
  have "\<And>n. n \<in> set tuple_columns \<Longrightarrow>
      (if n \<in> set header \<and> index_of header n < length (map (render fmt) cs)
       then Some (read_field rn rd n (map (render fmt) cs ! index_of header n)) else None)
      = (if n \<in> set header \<and> index_of header n < length cs
         then Some (value_of (cs ! index_of header n)) else None)"
  proof -
    fix n assume n: "n \<in> set tuple_columns"
    show "(if n \<in> set header \<and> index_of header n < length (map (render fmt) cs)
       then Some (read_field rn rd n (map (render fmt) cs ! index_of header n)) else None)
      = (if n \<in> set header \<and> index_of header n < length cs
         then Some (value_of (cs ! index_of header n)) else None)"
    proof (cases "n \<in> set header \<and> index_of header n < length cs")
      case False
      then show ?thesis by auto
    next
      case True
      with assms(1) n have "kind_ok n (cs ! index_of header n)"
        by (auto simp: list_all_iff)
      moreover from assms(2) True have "legible fmt rn rd (cs ! index_of header n)"
        by (simp add: list_all_iff)
      ultimately have "read_field rn rd n (render fmt (cs ! index_of header n)) = value_of (cs ! index_of header n)"
        by (rule read_field_render)
      with True show ?thesis by simp
    qed
  qed
  then show ?thesis
    unfolding tuple_of_def by (rule map_cong [OF refl])
qed

text \<open>
  C7. Take a table whose column Symbol holds texts, whose column Date holds dates and
  whose columns Open, High, Low, Close and Volume hold numbers, and a way of printing
  numbers and dates that can be read back. Then the exported text starts with the
  column labels, and the observations read from the exported text are the
  observations of the table, one for each row and in the order of the rows: the same
  symbol, date, open, high, low, close and volume, a missing number being read as
  missing.
\<close>

theorem export_round_trip:
  "well_typed df \<Longrightarrow> readable fmt rn rd df \<Longrightarrow>
   read_back rn rd (parse_csv (to_csv fmt df)) = observations df
   \<and> hd (parse_csv (to_csv fmt df)) = columns df"
proof -
  assume w: "well_typed df" and r: "readable fmt rn rd df"
  have "read_back rn rd (parse_csv (to_csv fmt df))
      = map (\<lambda>r. tuple_of (read_field rn rd) (columns df) (map (render fmt) (snd r))) (rows df)"
    by (simp add: parse_to_csv table_texts_def read_back_def o_def)
  also have "\<dots> = map (\<lambda>r. tuple_of (\<lambda>n. value_of) (columns df) (snd r)) (rows df)"
  proof (rule map_cong [OF refl])
    fix x assume "x \<in> set (rows df)"
    with w r show "tuple_of (read_field rn rd) (columns df) (map (render fmt) (snd x))
        = tuple_of (\<lambda>n. value_of) (columns df) (snd x)"
      by (intro tuple_of_render) (simp_all add: well_typed_def readable_def list_all_iff)
  qed
  finally have "read_back rn rd (parse_csv (to_csv fmt df)) = observations df"
    by (simp only: observations_def)
  moreover have "hd (parse_csv (to_csv fmt df)) = columns df"
    by (simp add: parse_to_csv table_texts_def)
  ultimately show ?thesis by (rule conjI)
qed

lemma to_csv_tidy:
  "to_csv sample_fmt tidy = ascii ''Open,High,Low,Close,Volume,Symbol,Date'' @ [10]
    @ ascii ''125.0,131.0,124.0,125.0,1000.0,AAPL,day 19360'' @ [10]
    @ ascii ''110.0,115.0,108.0,113.0,,'' @ [34, 66, 82, 75, 34, 34, 66, 34] @ ascii '',day 19361'' @ [10]"
  by (simp add: to_csv_def tidy_def ohlcv_def csv_line_def quote_def special_def render_def ascii_def)

lemma readable_tidy: "readable sample_fmt sample_rn sample_rd tidy"
  by (simp add: readable_def legible_def tidy_def sample_rn_def sample_rd_def read_nat_def ascii_def)

lemma well_typed_tidy: "well_typed tidy"
  by (simp add: well_typed_def tidy_def tuple_columns_def ohlcv_def kind_ok_def)

lemma observations_tidy:
  "observations tidy
     = [[Some (TextV (ascii ''AAPL'')), Some (DateV 19360), Some (NumV (Some 125)), Some (NumV (Some 131)),
         Some (NumV (Some 124)), Some (NumV (Some 125)), Some (NumV (Some 1000))],
        [Some (TextV [66, 82, 75, 34, 66]), Some (DateV 19361), Some (NumV (Some 110)), Some (NumV (Some 115)),
         Some (NumV (Some 108)), Some (NumV (Some 113)), Some (NumV None)]]"
  by (simp add: observations_def tuple_of_def tidy_def tuple_columns_def ohlcv_def)

theorem export_round_trip_witness:
  "well_typed tidy \<and> readable sample_fmt sample_rn sample_rd tidy
   \<and> to_csv sample_fmt tidy = ascii ''Open,High,Low,Close,Volume,Symbol,Date'' @ [10]
      @ ascii ''125.0,131.0,124.0,125.0,1000.0,AAPL,day 19360'' @ [10]
      @ ascii ''110.0,115.0,108.0,113.0,,'' @ [34, 66, 82, 75, 34, 34, 66, 34] @ ascii '',day 19361'' @ [10]
   \<and> read_back sample_rn sample_rd (parse_csv (to_csv sample_fmt tidy))
     = [[Some (TextV (ascii ''AAPL'')), Some (DateV 19360), Some (NumV (Some 125)), Some (NumV (Some 131)),
         Some (NumV (Some 124)), Some (NumV (Some 125)), Some (NumV (Some 1000))],
        [Some (TextV [66, 82, 75, 34, 66]), Some (DateV 19361), Some (NumV (Some 110)), Some (NumV (Some 115)),
         Some (NumV (Some 108)), Some (NumV (Some 113)), Some (NumV None)]]
   \<and> hd (parse_csv (to_csv sample_fmt tidy)) = ohlcv @ [ascii ''Symbol'', ascii ''Date'']"
proof -
  have c: "columns tidy = ohlcv @ [ascii ''Symbol'', ascii ''Date'']"
    by (simp add: tidy_def)
  from export_round_trip [OF well_typed_tidy readable_tidy]
  have "read_back sample_rn sample_rd (parse_csv (to_csv sample_fmt tidy)) = observations tidy"
    and "hd (parse_csv (to_csv sample_fmt tidy)) = columns tidy"
    by simp_all
  then show ?thesis
    using well_typed_tidy readable_tidy to_csv_tidy
    by (simp only: observations_tidy c)
qed

subsection \<open>The exports\<close>

lemma first_line_single:
  "columns df = ascii ''Date'' # ohlcv \<Longrightarrow>
   first_line (to_csv fmt df) = ascii ''Date,Open,High,Low,Close,Volume''"
  by (simp add: to_csv_def csv_line_def quote_def special_def first_line_def ohlcv_def ascii_def)

lemma first_line_multi:
  "columns df = ohlcv @ [ascii ''Symbol'', ascii ''Date''] \<Longrightarrow>
   first_line (to_csv fmt df) = ascii ''Open,High,Low,Close,Volume,Symbol,Date''"
  by (simp add: to_csv_def csv_line_def quote_def special_def first_line_def ohlcv_def ascii_def)

lemma column_traces_present:
  "fetched_with cols raw_data symbols \<Longrightarrow> c \<in> set cols \<Longrightarrow>
   \<exists>ts. column_traces raw_data c sg symbols = Inr ts"
proof (induction symbols)
  case Nil
  show ?case by simp
next
  case (Cons s symbols)
  from Cons.prems obtain f where f: "raw_data s = Some f" "columns f = cols"
    and rest: "fetched_with cols raw_data symbols"
    by (auto simp: fetched_with_def split: option.splits)
  from Cons.IH [OF rest Cons.prems(2)] obtain ts where "column_traces raw_data c sg symbols = Inr ts"
    by blast
  then show ?case
    using f Cons.prems(2) by (simp add: getitem_def)
qed

lemma exports_multi_view_fetched:
  assumes "fetched_with ohlcv raw_data symbols" "symbols \<noteq> []"
  shows "\<exists>df. shape_multi raw_data symbols = Inr df
      \<and> columns df = ohlcv @ [ascii ''Symbol'', ascii ''Date'']
      \<and> exports (multi_view fmt symbols raw_data) = [(to_csv fmt df, ascii ''multi_stock_data.csv'')]"
proof -
  have "ascii ''Symbol'' \<notin> set ohlcv" "ascii ''Date'' \<notin> set ohlcv"
    by (simp_all add: ohlcv_def)
  from shape_multi_columns [OF this assms] obtain df where
    df: "shape_multi raw_data symbols = Inr df" "columns df = ohlcv @ [ascii ''Symbol'', ascii ''Date'']"
    by blast
  obtain preview where p: "getitem_list df [ascii ''Date'', ascii ''Symbol'', ascii ''Open'', ascii ''High'',
      ascii ''Low'', ascii ''Close'', ascii ''Volume''] = Inr preview"
    using df(2) by (simp add: getitem_list_def ohlcv_def)
  obtain closes where c: "column_traces raw_data (ascii ''Close'') None symbols = Inr closes"
    using column_traces_present [OF assms(1), of "ascii ''Close''" None] by (auto simp: ohlcv_def)
  obtain volumes where v: "column_traces raw_data (ascii ''Volume'') (Some (ascii ''one'')) symbols = Inr volumes"
    using column_traces_present [OF assms(1), of "ascii ''Volume''" "Some (ascii ''one'')"] by (auto simp: ohlcv_def)
  have "exports (multi_view fmt symbols raw_data) = [(to_csv fmt df, ascii ''multi_stock_data.csv'')]"
    by (simp add: multi_view_def raising_def df(1) p c v)
  with df show ?thesis by blast
qed

lemma price_frame_aapl: "price_frame aapl"
  by (simp add: price_frame_def aapl_def)

lemma fetched_samples:
  "fetched_with ohlcv [ascii ''AAPL'' \<mapsto> aapl, ascii ''MSFT'' \<mapsto> msft] [ascii ''AAPL'', ascii ''MSFT'']"
  by (simp add: fetched_with_def aapl_def msft_def ohlcv_def)

text \<open>
  C3, as stated, fails for a request for several symbols: the exported text starts
  with the columns of the fetched frames, then Symbol, then Date, and not with Date and
  Symbol.
\<close>

theorem multi_export_header:
  "map (first_line \<circ> fst)
     (exports (multi_view sample_fmt [ascii ''AAPL'', ascii ''MSFT'']
        [ascii ''AAPL'' \<mapsto> aapl, ascii ''MSFT'' \<mapsto> msft]))
     = [ascii ''Open,High,Low,Close,Volume,Symbol,Date'']"
proof -
  from exports_multi_view_fetched [OF fetched_samples, of sample_fmt] obtain df where
    "columns df = ohlcv @ [ascii ''Symbol'', ascii ''Date'']"
    "exports (multi_view sample_fmt [ascii ''AAPL'', ascii ''MSFT''] [ascii ''AAPL'' \<mapsto> aapl, ascii ''MSFT'' \<mapsto> msft])
       = [(to_csv sample_fmt df, ascii ''multi_stock_data.csv'')]"
    by auto
  then show ?thesis
    by (simp add: first_line_multi)
qed

text \<open>
  C3, amended. Every export of a request for one symbol has the file name of the
  symbol followed by \<^verbatim>\<open>_stock_data.csv\<close> and, for a fetched frame with the index
  Date and the columns Open, High, Low, Close, Volume, the header
  \<^verbatim>\<open>Date,Open,High,Low,Close,Volume\<close>. Every export of a request for several symbols
  has the file name \<^verbatim>\<open>multi_stock_data.csv\<close> and, for fetched frames with these
  columns, the header \<^verbatim>\<open>Open,High,Low,Close,Volume,Symbol,Date\<close>.
\<close>

theorem export_header_and_name:
  "((data, file_name) \<in> set (exports (single_view fmt symbol ma raw_one))
     \<longrightarrow> file_name = symbol @ ascii ''_stock_data.csv''
        \<and> (index_name raw_one = Some (ascii ''Date'') \<and> columns raw_one = ohlcv
             \<longrightarrow> first_line data = ascii ''Date,Open,High,Low,Close,Volume''))
   \<and> ((data, file_name) \<in> set (exports (multi_view fmt symbols raw_many))
     \<longrightarrow> file_name = ascii ''multi_stock_data.csv''
        \<and> (fetched_with ohlcv raw_many symbols \<and> symbols \<noteq> []
             \<longrightarrow> first_line data = ascii ''Open,High,Low,Close,Volume,Symbol,Date''))"
proof (intro conjI impI)
  assume a: "(data, file_name) \<in> set (exports (single_view fmt symbol ma raw_one))"
  then obtain df where df: "shape_single raw_one = Inr df" "data = to_csv fmt df"
      "file_name = symbol @ ascii ''_stock_data.csv''"
    using exports_single_view by blast
  show "file_name = symbol @ ascii ''_stock_data.csv''"
    by (rule df(3))
  assume b: "index_name raw_one = Some (ascii ''Date'') \<and> columns raw_one = ohlcv"
  then have "shape_single raw_one = Inr (with_index raw_one (ascii ''Date''))"
    by (intro shape_single_named) (simp_all add: ohlcv_def)
  then have "columns df = ascii ''Date'' # ohlcv"
    using df(1) b by (auto simp: with_index_def)
  then show "first_line data = ascii ''Date,Open,High,Low,Close,Volume''"
    using df(2) by (simp add: first_line_single)
next
  assume a: "(data, file_name) \<in> set (exports (multi_view fmt symbols raw_many))"
  then show "file_name = ascii ''multi_stock_data.csv''"
    using exports_multi_view by blast
  assume "fetched_with ohlcv raw_many symbols \<and> symbols \<noteq> []"
  then obtain df where df: "columns df = ohlcv @ [ascii ''Symbol'', ascii ''Date'']"
      "exports (multi_view fmt symbols raw_many) = [(to_csv fmt df, ascii ''multi_stock_data.csv'')]"
    using exports_multi_view_fetched [of raw_many symbols fmt] by blast
  with a show "first_line data = ascii ''Open,High,Low,Close,Volume,Symbol,Date''"
    by (simp add: first_line_multi)
qed

theorem export_header_and_name_witness:
  "(to_csv sample_fmt (with_index aapl (ascii ''Date'')), ascii ''AAPL_stock_data.csv'')
      \<in> set (exports (single_view sample_fmt (ascii ''AAPL'') True aapl))
   \<and> index_name aapl = Some (ascii ''Date'') \<and> columns aapl = ohlcv
   \<and> first_line (to_csv sample_fmt (with_index aapl (ascii ''Date''))) = ascii ''Date,Open,High,Low,Close,Volume''
   \<and> fetched_with ohlcv [ascii ''AAPL'' \<mapsto> aapl, ascii ''MSFT'' \<mapsto> msft] [ascii ''AAPL'', ascii ''MSFT'']
   \<and> (\<exists>data. (data, ascii ''multi_stock_data.csv'')
          \<in> set (exports (multi_view sample_fmt [ascii ''AAPL'', ascii ''MSFT'']
                 [ascii ''AAPL'' \<mapsto> aapl, ascii ''MSFT'' \<mapsto> msft]))
        \<and> first_line data = ascii ''Open,High,Low,Close,Volume,Symbol,Date'')"
proof -
  let ?csv = "to_csv sample_fmt (with_index aapl (ascii ''Date''))"
  let ?raw = "[ascii ''AAPL'' \<mapsto> aapl, ascii ''MSFT'' \<mapsto> msft]"
  have one: "(?csv, ascii ''AAPL_stock_data.csv'') \<in> set (exports (single_view sample_fmt (ascii ''AAPL'') True aapl))"
    by (simp add: single_view_price_frame [OF price_frame_aapl] ascii_append)
  have idx: "index_name aapl = Some (ascii ''Date'')" "columns aapl = ohlcv"
    by (simp_all add: aapl_def)
  from exports_multi_view_fetched [OF fetched_samples, of sample_fmt] obtain data where
    many: "(data, ascii ''multi_stock_data.csv'') \<in> set (exports (multi_view sample_fmt [ascii ''AAPL'', ascii ''MSFT''] ?raw))"
    by auto
  have "first_line ?csv = ascii ''Date,Open,High,Low,Close,Volume''"
    using export_header_and_name [of ?csv "ascii ''AAPL_stock_data.csv''" sample_fmt "ascii ''AAPL''" True aapl]
      one idx by simp
  moreover have "first_line data = ascii ''Open,High,Low,Close,Volume,Symbol,Date''"
    using export_header_and_name [of data "ascii ''multi_stock_data.csv''" sample_fmt _ _ _ "[ascii ''AAPL'', ascii ''MSFT'']" ?raw]
      many fetched_samples by simp
  ultimately show ?thesis
    using one idx many fetched_samples by blast
qed

subsection \<open>One symbol: the table\<close>

lemma rows_with_index: "map snd (rows (with_index f name)) = map (\<lambda>r. fst r # snd r) (rows f)"
  by (simp add: with_index_def map_snd_range_index)

text \<open>
  C4, as stated, fails: the table of a request for one symbol has the date and the
  columns of the fetched frame and no column that holds the symbol.
\<close>

theorem single_rows_untagged:
  "shape_single aapl = Inr (with_index aapl (ascii ''Date''))
   \<and> columns (with_index aapl (ascii ''Date''))
       = map ascii [''Date'', ''Open'', ''High'', ''Low'', ''Close'', ''Volume'']
   \<and> getitem (with_index aapl (ascii ''Date'')) (ascii ''Symbol'') = Inl (KeyError (ascii ''Symbol''))
   \<and> \<not> tagged_with (ascii ''AAPL'') (with_index aapl (ascii ''Date''))"
proof -
  have "shape_single aapl = Inr (with_index aapl (ascii ''Date''))"
    by (rule shape_single_named) (simp_all add: aapl_def ohlcv_def)
  moreover have c: "columns (with_index aapl (ascii ''Date''))
      = map ascii [''Date'', ''Open'', ''High'', ''Low'', ''Close'', ''Volume'']"
    by (simp add: with_index_def aapl_def ohlcv_def)
  moreover have "getitem (with_index aapl (ascii ''Date'')) (ascii ''Symbol'') = Inl (KeyError (ascii ''Symbol''))"
    by (simp add: getitem_def c)
  ultimately show ?thesis
    by (simp add: tagged_with_def)
qed

text \<open>
  C4, amended. For a fetched frame whose index label is not one of its columns, the
  table of a request for one symbol has one row per row of the frame, in the same
  order, each row the date of the frame's row followed by its cells: the date is an
  explicit column, the first one, and no other column is added. For a frame that has
  a column with the label of its index, shaping raises ValueError.
\<close>

theorem shape_single_rows:
  "(index_label raw_data \<notin> set (columns raw_data) \<longrightarrow>
      (\<exists>df. shape_single raw_data = Inr df
         \<and> columns df = index_label raw_data # columns raw_data
         \<and> length (rows df) = length (rows raw_data)
         \<and> map snd (rows df) = map (\<lambda>r. fst r # snd r) (rows raw_data)
         \<and> getitem df (index_label raw_data) = Inr (map fst (rows raw_data))))
   \<and> (index_label raw_data \<in> set (columns raw_data) \<longrightarrow>
      shape_single raw_data = Inl (ValueError (index_label raw_data)))"
proof (intro conjI impI)
  let ?name = "index_label raw_data"
  assume "?name \<notin> set (columns raw_data)"
  then have "shape_single raw_data = Inr (with_index raw_data ?name)"
    by (rule shape_single_label)
  moreover have "columns (with_index raw_data ?name) = ?name # columns raw_data"
    by (simp add: with_index_def)
  moreover have "length (rows (with_index raw_data ?name)) = length (rows raw_data)"
    by (simp add: with_index_def length_range_index)
  ultimately show "\<exists>df. shape_single raw_data = Inr df
         \<and> columns df = ?name # columns raw_data
         \<and> length (rows df) = length (rows raw_data)
         \<and> map snd (rows df) = map (\<lambda>r. fst r # snd r) (rows raw_data)
         \<and> getitem df ?name = Inr (map fst (rows raw_data))"
    using rows_with_index [of raw_data ?name] getitem_with_index_name [of raw_data ?name] by blast
next
  assume "index_label raw_data \<in> set (columns raw_data)"
  then show "shape_single raw_data = Inl (ValueError (index_label raw_data))"
    by (rule shape_single_clash)
qed

theorem shape_single_rows_witness:
  "index_label aapl = ascii ''Date'' \<and> ascii ''Date'' \<notin> set (columns aapl)
   \<and> (\<exists>df. shape_single aapl = Inr df
       \<and> columns df = ascii ''Date'' # columns aapl
       \<and> length (rows df) = 2
       \<and> map snd (rows df) = map (\<lambda>r. fst r # snd r) (rows aapl)
       \<and> getitem df (ascii ''Date'') = Inr [Timestamp 19360, Timestamp 19361])
   \<and> index_label (aapl\<lparr>index_name := Some (ascii ''Close'')\<rparr>)
       \<in> set (columns (aapl\<lparr>index_name := Some (ascii ''Close'')\<rparr>))
   \<and> shape_single (aapl\<lparr>index_name := Some (ascii ''Close'')\<rparr>) = Inl (ValueError (ascii ''Close''))"
proof -
  have l: "index_label aapl = ascii ''Date''"
    by (simp add: index_label_def aapl_def)
  have h: "index_label aapl \<notin> set (columns aapl)"
    by (simp add: l) (simp add: aapl_def ohlcv_def)
  have m: "map fst (rows aapl) = [Timestamp 19360, Timestamp 19361]"
    by (simp add: aapl_def)
  let ?bad = "aapl\<lparr>index_name := Some (ascii ''Close'')\<rparr>"
  have l': "index_label ?bad = ascii ''Close''"
    by (simp add: index_label_def)
  have h': "index_label ?bad \<in> set (columns ?bad)"
    by (simp add: l') (simp add: aapl_def ohlcv_def)
  from shape_single_rows [of aapl] h have
    "\<exists>df. shape_single aapl = Inr df
       \<and> columns df = index_label aapl # columns aapl
       \<and> length (rows df) = length (rows aapl)
       \<and> map snd (rows df) = map (\<lambda>r. fst r # snd r) (rows aapl)
       \<and> getitem df (index_label aapl) = Inr (map fst (rows aapl))"
    by blast
  moreover from shape_single_rows [of ?bad] h' have
    "shape_single ?bad = Inl (ValueError (index_label ?bad))"
    by blast
  ultimately show ?thesis
    using l h m l' h' length_rows_aapl by simp
qed

subsection \<open>The script: failure of the download, and no symbols\<close>

lemma run_symbols:
  "resolve_symbols full (symbol_input inp) = symbols \<Longrightarrow> symbols \<noteq> [] \<Longrightarrow>
   run full fmt yf inp = page_header @ Spinner (9203 # ascii '' Loading data...'') #
     LoadStockData symbols (start_date inp) (end_date inp) #
     (if length symbols = 1 then
        (case download_one yf symbols (start_date inp) (end_date inp) of
           Inl e \<Rightarrow> [Error (ascii ''Failed to fetch stock data: '' @ e)]
         | Inr raw_data \<Rightarrow> single_view fmt (symbols ! 0) (show_ma inp) raw_data)
      else
        (case download_many yf symbols (start_date inp) (end_date inp) of
           Inl e \<Rightarrow> [Error (ascii ''Failed to fetch stock data: '' @ e)]
         | Inr raw_data \<Rightarrow> multi_view fmt symbols raw_data))"
  by (simp add: run_def Let_def)

lemma resolve_zzzz: "resolve_symbols sample_full (ascii ''zzzz'') = [ascii ''ZZZZ'']"
  by (simp add: resolve_symbols_def split_def strip_def isspace_def upper_def upper_char_def ascii_def)

lemma resolve_aapl_zzzz:
  "resolve_symbols sample_full (ascii ''aapl, zzzz'') = [ascii ''AAPL'', ascii ''ZZZZ'']"
  by (simp add: resolve_symbols_def split_def strip_def isspace_def upper_def upper_char_def ascii_def)

lemma resolve_blank: "resolve_symbols sample_full (ascii '' , '') = []"
  by (simp add: resolve_symbols_def split_def strip_def isspace_def ascii_def)

lemma resolve_blank_unicode: "resolve_symbols sample_full [160, 44, 8195, 9] = []"
  by (simp add: resolve_symbols_def split_def strip_def isspace_def)

text \<open>
  C6. When the download fails, the run is the page header, the spinner, the call of
  the download and one error message with the failure's text: nothing is shaped,
  shown or exported after the failure.
\<close>

theorem fetch_failure_stops:
  assumes "resolve_symbols full (symbol_input inp) = symbols" "symbols \<noteq> []"
    "if length symbols = 1
     then download_one yf symbols (start_date inp) (end_date inp) = Inl msg
     else download_many yf symbols (start_date inp) (end_date inp) = Inl msg"
  shows "run full fmt yf inp = page_header @
     [Spinner (9203 # ascii '' Loading data...''),
      LoadStockData symbols (start_date inp) (end_date inp),
      Error (ascii ''Failed to fetch stock data: '' @ msg)]"
  using assms(3) by (simp add: run_symbols [OF assms(1,2)] split: if_splits)

theorem fetch_failure_stops_witness:
  "run sample_full sample_fmt sample_yf (request (ascii ''zzzz'')) = page_header @
     [Spinner (9203 # ascii '' Loading data...''), LoadStockData [ascii ''ZZZZ''] 19358 19500,
      Error (ascii ''Failed to fetch stock data: no data'')]
   \<and> run sample_full sample_fmt sample_yf (request (ascii ''aapl, zzzz'')) = page_header @
     [Spinner (9203 # ascii '' Loading data...''), LoadStockData [ascii ''AAPL'', ascii ''ZZZZ''] 19358 19500,
      Error (ascii ''Failed to fetch stock data: no data'')]"
proof -
  have one: "resolve_symbols sample_full (symbol_input (request (ascii ''zzzz''))) = [ascii ''ZZZZ'']"
    by (simp add: request_def resolve_zzzz)
  have many: "resolve_symbols sample_full (symbol_input (request (ascii ''aapl, zzzz''))) = [ascii ''AAPL'', ascii ''ZZZZ'']"
    by (simp add: request_def resolve_aapl_zzzz)
  have f1: "if length [ascii ''ZZZZ''] = 1
     then download_one sample_yf [ascii ''ZZZZ''] (start_date (request (ascii ''zzzz''))) (end_date (request (ascii ''zzzz''))) = Inl (ascii ''no data'')
     else download_many sample_yf [ascii ''ZZZZ''] (start_date (request (ascii ''zzzz''))) (end_date (request (ascii ''zzzz''))) = Inl (ascii ''no data'')"
    by (simp add: sample_yf_def)
  have f2: "if length [ascii ''AAPL'', ascii ''ZZZZ''] = 1
     then download_one sample_yf [ascii ''AAPL'', ascii ''ZZZZ''] (start_date (request (ascii ''aapl, zzzz''))) (end_date (request (ascii ''aapl, zzzz''))) = Inl (ascii ''no data'')
     else download_many sample_yf [ascii ''AAPL'', ascii ''ZZZZ''] (start_date (request (ascii ''aapl, zzzz''))) (end_date (request (ascii ''aapl, zzzz''))) = Inl (ascii ''no data'')"
    by (simp add: sample_yf_def)
  show ?thesis
    using fetch_failure_stops [OF one _ f1, of sample_fmt] fetch_failure_stops [OF many _ f2, of sample_fmt]
    by (simp add: request_def ascii_append)
qed

text \<open>
  C8. When the symbol list is empty, the run is the page header and the prompt: the
  download is not called, and there is no error message and no exception.
\<close>

theorem empty_symbols_prompt:
  "resolve_symbols full (symbol_input inp) = [] \<Longrightarrow>
   run full fmt yf inp
     = page_header @ [Warning (128072 # ascii '' Please enter at least one valid stock symbol.'')]"
  by (simp add: run_def)

theorem empty_symbols_prompt_witness:
  "resolve_symbols sample_full (symbol_input (request (ascii '' , ''))) = []
   \<and> run sample_full sample_fmt sample_yf (request (ascii '' , ''))
       = page_header @ [Warning (128072 # ascii '' Please enter at least one valid stock symbol.'')]
   \<and> resolve_symbols sample_full (symbol_input (request [160, 44, 8195, 9])) = []
   \<and> run sample_full sample_fmt sample_yf (request [160, 44, 8195, 9])
       = page_header @ [Warning (128072 # ascii '' Please enter at least one valid stock symbol.'')]"
proof -
  have h: "resolve_symbols sample_full (symbol_input (request (ascii '' , ''))) = []"
    by (simp add: request_def resolve_blank)
  have u: "resolve_symbols sample_full (symbol_input (request [160, 44, 8195, 9])) = []"
    by (simp add: request_def resolve_blank_unicode)
  from empty_symbols_prompt [OF h] empty_symbols_prompt [OF u] h u show ?thesis by simp
qed

subsection \<open>One symbol: the export and the moving average\<close>

text \<open>
  C10. An export of a request for one symbol is the CSV text of the shaped table,
  whatever the flag. On a frame of prices the run exports once, the same text under
  both values of the flag, with the columns of the shaped table as its header; and the
  two runs are equal at every position but that of the closing-price chart.
\<close>

theorem export_ignores_show_ma:
  "((data, file_name) \<in> set (exports (single_view fmt symbol ma raw_data))
      \<longrightarrow> (\<exists>df. shape_single raw_data = Inr df \<and> data = to_csv fmt df))
   \<and> (price_frame raw_data \<longrightarrow>
        exports (single_view fmt symbol True raw_data) = exports (single_view fmt symbol False raw_data)
        \<and> exports (single_view fmt symbol ma raw_data)
            = [(to_csv fmt (with_index raw_data (ascii ''Date'')), symbol @ ascii ''_stock_data.csv'')]
        \<and> first_line (to_csv fmt (with_index raw_data (ascii ''Date'')))
            = ascii ''Date,Open,High,Low,Close,Volume''
        \<and> length (single_view fmt symbol True raw_data) = length (single_view fmt symbol False raw_data)
        \<and> (\<forall>k. k \<noteq> 5 \<longrightarrow> single_view fmt symbol True raw_data ! k = single_view fmt symbol False raw_data ! k))"
proof (intro conjI impI allI)
  assume "(data, file_name) \<in> set (exports (single_view fmt symbol ma raw_data))"
  then show "\<exists>df. shape_single raw_data = Inr df \<and> data = to_csv fmt df"
    using exports_single_view by blast
next
  assume p: "price_frame raw_data"
  show "exports (single_view fmt symbol True raw_data) = exports (single_view fmt symbol False raw_data)"
    by (simp add: single_view_price_frame [OF p])
  show "exports (single_view fmt symbol ma raw_data)
      = [(to_csv fmt (with_index raw_data (ascii ''Date'')), symbol @ ascii ''_stock_data.csv'')]"
    by (simp add: single_view_price_frame [OF p])
  show "first_line (to_csv fmt (with_index raw_data (ascii ''Date''))) = ascii ''Date,Open,High,Low,Close,Volume''"
    using p by (intro first_line_single) (simp add: with_index_def price_frame_def)
  show "length (single_view fmt symbol True raw_data) = length (single_view fmt symbol False raw_data)"
    by (simp add: single_view_price_frame [OF p])
  fix k :: nat
  assume "k \<noteq> 5"
  then show "single_view fmt symbol True raw_data ! k = single_view fmt symbol False raw_data ! k"
    by (simp add: single_view_price_frame [OF p] nth_Cons')
qed

theorem export_ignores_show_ma_witness:
  "price_frame aapl
   \<and> (to_csv sample_fmt (with_index aapl (ascii ''Date'')), ascii ''AAPL_stock_data.csv'')
        \<in> set (exports (single_view sample_fmt (ascii ''AAPL'') True aapl))
   \<and> exports (single_view sample_fmt (ascii ''AAPL'') True aapl)
       = exports (single_view sample_fmt (ascii ''AAPL'') False aapl)
   \<and> shape_single aapl = Inr (with_index aapl (ascii ''Date''))
   \<and> single_view sample_fmt (ascii ''AAPL'') True aapl ! 8 = single_view sample_fmt (ascii ''AAPL'') False aapl ! 8"
proof -
  note t = export_ignores_show_ma [of "to_csv sample_fmt (with_index aapl (ascii ''Date''))" "ascii ''AAPL_stock_data.csv''"
      sample_fmt "ascii ''AAPL''" True aapl]
  from t price_frame_aapl
  have "exports (single_view sample_fmt (ascii ''AAPL'') True aapl)
      = [(to_csv sample_fmt (with_index aapl (ascii ''Date'')), ascii ''AAPL'' @ ascii ''_stock_data.csv'')]"
    by blast
  then have e: "exports (single_view sample_fmt (ascii ''AAPL'') True aapl)
      = [(to_csv sample_fmt (with_index aapl (ascii ''Date'')), ascii ''AAPL_stock_data.csv'')]"
    by (simp add: ascii_append)
  have m: "(to_csv sample_fmt (with_index aapl (ascii ''Date'')), ascii ''AAPL_stock_data.csv'')
        \<in> set (exports (single_view sample_fmt (ascii ''AAPL'') True aapl))"
    by (simp only: e) simp
  have s: "shape_single aapl = Inr (with_index aapl (ascii ''Date''))"
    by (rule shape_single_named) (simp_all add: aapl_def ohlcv_def)
  have "(8::nat) \<noteq> 5" by simp
  with t price_frame_aapl m s show ?thesis by blast
qed

end
